theory Spec2Isabelle
  imports Complex_Main "HOL-Library.Word"
begin

section \<open>Data model\<close>

text \<open>
  \<^verbatim>\<open>constexpr gsl::index BATCHSIZE = 64;\<close>
\<close>

definition BATCHSIZE :: nat where
  "BATCHSIZE = 64"

text \<open>
  The node tags of the interpreter's switch, in the order of its cases. The C++ type is a
  bit-mask enumeration, so a node can carry a tag that is none of the fourteen:
  \<open>Unknown\<close> stands for every such tag (the switch's \<^verbatim>\<open>default\<close> case).
\<close>

datatype NodeType =
  Add | Mul | Sub | Div | Log | Exp | Sin | Cos | Tan | Sqrt | Cbrt | Square
  | Constant | Variable | Unknown

text \<open>
  A node \<^verbatim>\<open>{ Type, Arity, Length, Depth, Value, HashValue }\<close>. \<open>Length\<close> counts
  the nodes of the subtree below the node, the node itself excluded. \<open>'s\<close> is
  \<^verbatim>\<open>Operon::Scalar\<close>, the type of the coefficients and of the dataset's readings.
\<close>

record 's Node =
  Type :: NodeType
  Arity :: nat
  Length :: nat
  Depth :: nat
  Value :: 's
  HashValue :: nat

definition IsConstant :: "'s Node \<Rightarrow> bool" where
  "IsConstant n = (Type n = Constant)"

definition IsVariable :: "'s Node \<Rightarrow> bool" where
  "IsVariable n = (Type n = Variable)"

text \<open>A half-open interval of rows, \<^verbatim>\<open>[Start, Start + Size)\<close>.\<close>

record Range =
  Start :: nat
  Size :: nat

text \<open>
  Modelled from the spec: the class \<^verbatim>\<open>Dataset\<close> is not among the sources. The spec gives
  it \<^verbatim>\<open>GetIndex(hash)\<close>, a total function from the hash of a known variable to a column
  index, and \<^verbatim>\<open>Values().col(k).segment(offset, n)\<close>, a view of \<open>n\<close> readings of column
  \<open>k\<close>. \<open>Values\<close> is the list of the columns; what \<open>GetIndex\<close> does at an unknown hash
  is left to the field's value.
\<close>

record 's Dataset =
  GetIndex :: "nat \<Rightarrow> nat"
  Values :: "'s list list"

text \<open>
  \<^verbatim>\<open>template <typename T>\<close>: the interpreter is written once for every scalar type
  \<open>'a\<close> (a floating-point type, or a dual number of the automatic differentiation), and
  uses of it only the operations below. \<open>cast\<close> is the conversion \<^verbatim>\<open>T(x)\<close> of an
  \<^verbatim>\<open>Operon::Scalar\<close>, \<open>less_T a b\<close> is \<^verbatim>\<open>a < b\<close> (and \<^verbatim>\<open>a > b\<close> is
  \<open>less_T b a\<close>), \<open>IsFinite\<close> is \<^verbatim>\<open>ceres::IsFinite\<close>, \<open>Max_T\<close> and \<open>Min_T\<close> are
  \<^verbatim>\<open>Operon::Numeric::Max<T>()\<close> and \<^verbatim>\<open>Operon::Numeric::Min<T>()\<close>, \<open>two_T\<close> is the
  literal \<^verbatim>\<open>2.0\<close> and \<open>default_T\<close> the value-initialised \<^verbatim>\<open>T()\<close>.
\<close>

record ('s, 'a) arith =
  cast :: "'s \<Rightarrow> 'a"
  plus_T :: "'a \<Rightarrow> 'a \<Rightarrow> 'a"
  minus_T :: "'a \<Rightarrow> 'a \<Rightarrow> 'a"
  times_T :: "'a \<Rightarrow> 'a \<Rightarrow> 'a"
  divide_T :: "'a \<Rightarrow> 'a \<Rightarrow> 'a"
  log_T :: "'a \<Rightarrow> 'a"
  exp_T :: "'a \<Rightarrow> 'a"
  sin_T :: "'a \<Rightarrow> 'a"
  cos_T :: "'a \<Rightarrow> 'a"
  tan_T :: "'a \<Rightarrow> 'a"
  sqrt_T :: "'a \<Rightarrow> 'a"
  cbrt_T :: "'a \<Rightarrow> 'a"
  square_T :: "'a \<Rightarrow> 'a"
  less_T :: "'a \<Rightarrow> 'a \<Rightarrow> bool"
  IsFinite :: "'a \<Rightarrow> bool"
  Max_T :: "'a"
  Min_T :: "'a"
  two_T :: "'a"
  default_T :: "'a"

section \<open>Replacing the values that are not finite\<close>

text \<open>
  \<^verbatim>\<open>MinMax\<close>: the least and the greatest finite value of a span, starting from
  \<^verbatim>\<open>Numeric::Max<T>()\<close> for the minimum and \<^verbatim>\<open>Numeric::Min<T>()\<close> for the maximum.
\<close>

fun MinMax_loop :: "('s, 'a) arith \<Rightarrow> 'a list \<Rightarrow> 'a \<times> 'a \<Rightarrow> 'a \<times> 'a" where
  "MinMax_loop A [] (mn, mx) = (mn, mx)"
| "MinMax_loop A (v # vs) (mn, mx) =
     (if \<not> IsFinite A v then MinMax_loop A vs (mn, mx)
      else
        let mn1 = (if less_T A v mn then v else mn);
            mx1 = (if less_T A mx v then v else mx)
        in MinMax_loop A vs (mn1, mx1))"

definition MinMax :: "('s, 'a) arith \<Rightarrow> 'a list \<Rightarrow> 'a \<times> 'a" where
  "MinMax A values = MinMax_loop A values (Max_T A, Min_T A)"

text \<open>\<^verbatim>\<open>std::clamp(v, lo, hi)\<close> is \<^verbatim>\<open>(v < lo) ? lo : (hi < v) ? hi : v\<close>.\<close>

definition clamp_T :: "('s, 'a) arith \<Rightarrow> 'a \<Rightarrow> 'a \<Rightarrow> 'a \<Rightarrow> 'a" where
  "clamp_T A v lo hi = (if less_T A v lo then lo else if less_T A hi v then hi else v)"

text \<open>
  \<^verbatim>\<open>LimitToRange\<close>: a finite value is clamped, any other value becomes
  \<^verbatim>\<open>mid = (min + max) / 2.0\<close>.
\<close>

definition LimitToRange :: "('s, 'a) arith \<Rightarrow> 'a list \<Rightarrow> 'a \<Rightarrow> 'a \<Rightarrow> 'a list" where
  "LimitToRange A values mn mx =
     (let mid = divide_T A (plus_T A mn mx) (two_T A)
      in map (\<lambda>v. if IsFinite A v then clamp_T A v mn mx else mid) values)"

section \<open>The batched interpreter\<close>

text \<open>
  What the C++ leaves undefined (an index outside a vector, a matrix or a buffer) and the
  fatal exit of the switch's \<^verbatim>\<open>default\<close> case are results of the model.
\<close>

datatype error = OutOfBounds | Terminated

text \<open>
  The reads of the two inputs behind pointers, in the order the interpreter makes them:
  \<open>ParamRead i k\<close> is the read of \<^verbatim>\<open>parameters[k]\<close> made for node \<open>i\<close>,
  \<open>ColumnRead i c off n\<close> the read of \<open>n\<close> readings of the dataset's column \<open>c\<close> from
  row \<open>off\<close> on, made for node \<open>i\<close>.
\<close>

datatype access = ParamRead nat nat | ColumnRead nat nat nat nat

text \<open>A loop over indices that stops at the first error.\<close>

primrec for_each :: "(nat \<Rightarrow> 'st \<Rightarrow> error + 'st) \<Rightarrow> nat list \<Rightarrow> 'st \<Rightarrow> error + 'st" where
  "for_each f [] st = Inr st"
| "for_each f (i # is) st = (case f i st of Inl e \<Rightarrow> Inl e | Inr st' \<Rightarrow> for_each f is st')"

text \<open>
  The setup pass, once per evaluation. The state is the scratch matrix \<open>m\<close> (a list of
  columns of \<open>BATCHSIZE\<close> rows, one column per node), the dataset column of every node,
  the parameter cursor \<open>idx\<close> and the reads made so far.
  \<^verbatim>\<open>
    if (nodes[i].IsConstant()) {
        auto v = parameters == nullptr ? T(nodes[i].Value) : parameters[idx];
        m.col(i).setConstant(v);
        idx++;
    } else if (nodes[i].IsVariable()) {
        indices[i] = dataset.GetIndex(nodes[i].HashValue);
        idx++;
    }
  \<close>
  \<open>parameters\<close> is \<open>None\<close> for \<^verbatim>\<open>nullptr\<close> and \<open>Some p\<close> for a pointer to the buffer
  \<open>p\<close>; a read past the end of \<open>p\<close> is \<open>OutOfBounds\<close>.
\<close>

definition setup_node ::
  "('s, 'a) arith \<Rightarrow> 's Node list \<Rightarrow> 's Dataset \<Rightarrow> 'a list option \<Rightarrow> nat \<Rightarrow>
   'a list list \<times> nat list \<times> nat \<times> access list \<Rightarrow>
   error + 'a list list \<times> nat list \<times> nat \<times> access list" where
  "setup_node A nodes dataset parameters i st =
     (case st of (m, indices, idx, lg) \<Rightarrow>
        if IsConstant (nodes ! i) then
          (case parameters of
             None \<Rightarrow>
               Inr (m[i := replicate BATCHSIZE (cast A (Value (nodes ! i)))], indices, idx + 1, lg)
           | Some p \<Rightarrow>
               if idx < length p
               then Inr (m[i := replicate BATCHSIZE (p ! idx)], indices, idx + 1,
                         lg @ [ParamRead i idx])
               else Inl OutOfBounds)
        else if IsVariable (nodes ! i) then
          Inr (m, indices[i := GetIndex dataset (HashValue (nodes ! i))], idx + 1, lg)
        else Inr (m, indices, idx, lg))"

text \<open>
  A binary node: \<^verbatim>\<open>c1 = i - 1; c2 = c1 - 1 - nodes[c1].Length; r = m.col(c1) op m.col(c2)\<close>
  on all the rows of the column. The indices are \<^verbatim>\<open>size_t\<close>: a subtraction below zero
  wraps to an index of at least \<open>2^64 - 2^16 - 1\<close>, outside every matrix, which is
  \<open>OutOfBounds\<close> here.
\<close>

definition binary_node ::
  "('a \<Rightarrow> 'a \<Rightarrow> 'a) \<Rightarrow> 's Node list \<Rightarrow> nat \<Rightarrow> 'a list list \<Rightarrow> error + 'a list list" where
  "binary_node f nodes i m =
     (if i = 0 then Inl OutOfBounds
      else
        let c1 = i - 1 in
        if c1 < 1 + Length (nodes ! c1) then Inl OutOfBounds
        else
          let c2 = c1 - 1 - Length (nodes ! c1)
          in Inr (m[i := map2 f (m ! c1) (m ! c2)]))"

text \<open>A unary node: \<^verbatim>\<open>r = m.col(i - 1).f()\<close>.\<close>

definition unary_node :: "('a \<Rightarrow> 'a) \<Rightarrow> nat \<Rightarrow> 'a list list \<Rightarrow> error + 'a list list" where
  "unary_node f i m = (if i = 0 then Inl OutOfBounds else Inr (m[i := map f (m ! (i - 1))]))"

text \<open>
  A variable node:
  \<^verbatim>\<open>
    auto w = parameters == nullptr ? T(s.Value) : parameters[idx++];
    r.segment(0, remainingRows) = w * dataset.Values().col(indices[i])
        .segment(range.Start() + row, remainingRows).cast<T>();
  \<close>
  The cursor moves only when the parameters are read. The rows of the column from
  \<open>remainingRows\<close> on keep what they held.
\<close>

definition variable_node ::
  "('s, 'a) arith \<Rightarrow> 's Node list \<Rightarrow> 's Dataset \<Rightarrow> Range \<Rightarrow> 'a list option \<Rightarrow> nat list \<Rightarrow>
   nat \<Rightarrow> nat \<Rightarrow> nat \<Rightarrow> 'a list list \<times> nat \<times> access list \<Rightarrow>
   error + 'a list list \<times> nat \<times> access list" where
  "variable_node A nodes dataset rng parameters indices row remainingRows i st =
     (case st of (m, idx, lg) \<Rightarrow>
        case (case parameters of
                None \<Rightarrow> Inr (cast A (Value (nodes ! i)), idx, lg)
              | Some p \<Rightarrow>
                  if idx < length p then Inr (p ! idx, idx + 1, lg @ [ParamRead i idx])
                  else Inl OutOfBounds) of
          Inl e \<Rightarrow> Inl e
        | Inr (w, idx1, lg1) \<Rightarrow>
            let c = indices ! i; off = Start rng + row in
            if c < length (Values dataset) \<and> off + remainingRows \<le> length (Values dataset ! c)
            then
              let seg = take remainingRows (drop off (Values dataset ! c))
              in Inr (m[i := map (\<lambda>x. times_T A w (cast A x)) seg @ drop remainingRows (m ! i)],
                      idx1, lg1 @ [ColumnRead i c off remainingRows])
            else Inl OutOfBounds)"

text \<open>The switch over the type of node \<open>i\<close>, in one batch.\<close>

definition eval_node ::
  "('s, 'a) arith \<Rightarrow> 's Node list \<Rightarrow> 's Dataset \<Rightarrow> Range \<Rightarrow> 'a list option \<Rightarrow> nat list \<Rightarrow>
   nat \<Rightarrow> nat \<Rightarrow> nat \<Rightarrow> 'a list list \<times> nat \<times> access list \<Rightarrow>
   error + 'a list list \<times> nat \<times> access list" where
  "eval_node A nodes dataset rng parameters indices row remainingRows i st =
     (case st of (m, idx, lg) \<Rightarrow>
        let bin = (\<lambda>f. map_sum id (\<lambda>m'. (m', idx, lg)) (binary_node f nodes i m));
            un = (\<lambda>f. map_sum id (\<lambda>m'. (m', idx, lg)) (unary_node f i m))
        in
        case Type (nodes ! i) of
          Add \<Rightarrow> bin (plus_T A)
        | Mul \<Rightarrow> bin (times_T A)
        | Sub \<Rightarrow> bin (minus_T A)
        | Div \<Rightarrow> bin (divide_T A)
        | Log \<Rightarrow> un (log_T A)
        | Exp \<Rightarrow> un (exp_T A)
        | Sin \<Rightarrow> un (sin_T A)
        | Cos \<Rightarrow> un (cos_T A)
        | Tan \<Rightarrow> un (tan_T A)
        | Sqrt \<Rightarrow> un (sqrt_T A)
        | Cbrt \<Rightarrow> un (cbrt_T A)
        | Square \<Rightarrow> un (square_T A)
        | Constant \<Rightarrow> Inr (m, idx + 1, lg)
        | Variable \<Rightarrow>
            variable_node A nodes dataset rng parameters indices row remainingRows i st
        | Unknown \<Rightarrow> Inl Terminated)"

text \<open>
  \<^verbatim>\<open>res.segment(row, remainingRows) = lastCol.segment(0, remainingRows)\<close>: a write
  past the end of the result is \<open>OutOfBounds\<close>.
\<close>

definition write_segment :: "'a list \<Rightarrow> nat \<Rightarrow> 'a list \<Rightarrow> error + 'a list" where
  "write_segment res row vals =
     (if row + length vals \<le> length res
      then Inr (take row res @ vals @ drop (row + length vals) res)
      else Inl OutOfBounds)"

text \<open>
  One batch: the cursor starts at \<open>0\<close>, the nodes are evaluated in order, and the first
  \<open>remainingRows\<close> rows of the last column go to the result.
\<close>

definition batch ::
  "('s, 'a) arith \<Rightarrow> 's Node list \<Rightarrow> 's Dataset \<Rightarrow> Range \<Rightarrow> 'a list option \<Rightarrow> nat list \<Rightarrow>
   nat \<Rightarrow> 'a list list \<times> 'a list \<times> access list \<Rightarrow>
   error + 'a list list \<times> 'a list \<times> access list" where
  "batch A nodes dataset rng parameters indices row st =
     (case st of (m, res, lg) \<Rightarrow>
        let remainingRows = min BATCHSIZE (Size rng - row) in
        case for_each (eval_node A nodes dataset rng parameters indices row remainingRows)
               [0..<length nodes] (m, 0, lg) of
          Inl e \<Rightarrow> Inl e
        | Inr (m', idx', lg') \<Rightarrow>
            (case write_segment res row (take remainingRows (m' ! (length nodes - 1))) of
               Inl e \<Rightarrow> Inl e
             | Inr res' \<Rightarrow> Inr (m', res', lg')))"

text \<open>\<^verbatim>\<open>for (gsl::index row = 0; row < numRows; row += BATCHSIZE)\<close>\<close>

function batches ::
  "('s, 'a) arith \<Rightarrow> 's Node list \<Rightarrow> 's Dataset \<Rightarrow> Range \<Rightarrow> 'a list option \<Rightarrow> nat list \<Rightarrow>
   nat \<Rightarrow> 'a list list \<times> 'a list \<times> access list \<Rightarrow>
   error + 'a list list \<times> 'a list \<times> access list" where
  "batches A nodes dataset rng parameters indices row st =
     (if row < Size rng then
        (case batch A nodes dataset rng parameters indices row st of
           Inl e \<Rightarrow> Inl e
         | Inr st' \<Rightarrow> batches A nodes dataset rng parameters indices (row + BATCHSIZE) st')
      else Inr st)"
  by pat_completeness auto
termination
  by (relation "measure (\<lambda>(A, nodes, dataset, rng, parameters, indices, row, st). Size rng - row)")
     (auto simp: BATCHSIZE_def)

text \<open>
  The variant of \<^verbatim>\<open>Evaluate\<close> that writes into the caller's span \<open>result\<close>. The scratch
  matrix is allocated and not initialised: \<open>junk j k\<close> is what row \<open>k\<close> of column \<open>j\<close>
  holds at first. \<^verbatim>\<open>m.col(nodes.size() - 1)\<close> has no column to refer to when the tree has
  no node. The result comes with the reads that were made.
\<close>

definition Evaluate_span ::
  "('s, 'a) arith \<Rightarrow> 's Node list \<Rightarrow> 's Dataset \<Rightarrow> Range \<Rightarrow> 'a list option \<Rightarrow> 'a list \<Rightarrow>
   (nat \<Rightarrow> nat \<Rightarrow> 'a) \<Rightarrow> error + 'a list \<times> access list" where
  "Evaluate_span A nodes dataset rng parameters result junk =
     (let m0 = map (\<lambda>j. map (junk j) [0..<BATCHSIZE]) [0..<length nodes];
          indices0 = replicate (length nodes) 0
      in
      case for_each (setup_node A nodes dataset parameters) [0..<length nodes]
             (m0, indices0, 0, []) of
        Inl e \<Rightarrow> Inl e
      | Inr (m, indices, idx, lg) \<Rightarrow>
          if nodes = [] then Inl OutOfBounds
          else
            (case batches A nodes dataset rng parameters indices 0 (m, result, lg) of
               Inl e \<Rightarrow> Inl e
             | Inr (m', res, lg') \<Rightarrow>
                 (case MinMax A res of (mn, mx) \<Rightarrow> Inr (LimitToRange A res mn mx, lg'))))"

text \<open>
  \<^verbatim>\<open>Operon::Vector<T> result(range.Size()); Evaluate(tree, dataset, range, parameters,
  gsl::span<T>(result)); return result;\<close>
\<close>

definition Evaluate ::
  "('s, 'a) arith \<Rightarrow> 's Node list \<Rightarrow> 's Dataset \<Rightarrow> Range \<Rightarrow> 'a list option \<Rightarrow>
   (nat \<Rightarrow> nat \<Rightarrow> 'a) \<Rightarrow> error + 'a list \<times> access list" where
  "Evaluate A nodes dataset rng parameters junk =
     Evaluate_span A nodes dataset rng parameters (replicate (Size rng) (default_T A)) junk"

text \<open>
  Modelled from the spec: \<^verbatim>\<open>Tree::GetCoefficients\<close> is not among the sources. The spec
  gives the coefficient vector one entry per \<open>Constant\<close> node and one per \<open>Variable\<close>
  node (the variable's weight), in the order of the nodes.
\<close>

definition GetCoefficients :: "'s Node list \<Rightarrow> 's list" where
  "GetCoefficients nodes = map Value (filter (\<lambda>n. IsConstant n \<or> IsVariable n) nodes)"

text \<open>
  Modelled from the spec: \<^verbatim>\<open>Tree::SetCoefficients\<close> is not among the sources. The spec
  has it write the coefficient vector back into the tree in the same traversal order. A
  vector that ends early leaves the remaining nodes as they are (\<^verbatim>\<open>Optimize\<close> always
  passes one entry per coefficient).
\<close>

fun SetCoefficients :: "'s Node list \<Rightarrow> 's list \<Rightarrow> 's Node list" where
  "SetCoefficients [] cs = []"
| "SetCoefficients (n # ns) cs =
     (if IsConstant n \<or> IsVariable n then
        (case cs of
           [] \<Rightarrow> n # SetCoefficients ns []
         | c # cs' \<Rightarrow> n\<lparr>Value := c\<rparr> # SetCoefficients ns cs')
      else n # SetCoefficients ns cs)"

section \<open>The scalar type\<close>

text \<open>
  \<^verbatim>\<open>Operon::Scalar\<close> is \<^verbatim>\<open>double\<close>. The model keeps what the interpreter tests for:
  the finite values, the two infinities, the value that is not a number, and the overflow
  of a finite result beyond the largest finite value to an infinity. A finite result is
  its exact real value: rounding, underflow and the sign of zero are not modelled, so the
  model agrees with the machine where the operands and the exact result are
  representable, or where the exact result is beyond the range.
\<close>

datatype scalar = Fin real | PInf | NInf | NaN

text \<open>\<^verbatim>\<open>std::numeric_limits<double>::max()\<close>\<close>

definition DBL_MAX :: real where
  "DBL_MAX = (2 ^ 53 - 1) * 2 ^ 971"

definition overflow :: "real \<Rightarrow> scalar" where
  "overflow x = (if DBL_MAX < x then PInf else if x < - DBL_MAX then NInf else Fin x)"

fun isfinite :: "scalar \<Rightarrow> bool" where
  "isfinite (Fin x) = True"
| "isfinite PInf = False"
| "isfinite NInf = False"
| "isfinite NaN = False"

fun neg_d :: "scalar \<Rightarrow> scalar" where
  "neg_d (Fin x) = Fin (- x)"
| "neg_d PInf = NInf"
| "neg_d NInf = PInf"
| "neg_d NaN = NaN"

fun add_d :: "scalar \<Rightarrow> scalar \<Rightarrow> scalar" where
  "add_d (Fin x) (Fin y) = overflow (x + y)"
| "add_d NaN b = NaN"
| "add_d a NaN = NaN"
| "add_d PInf NInf = NaN"
| "add_d NInf PInf = NaN"
| "add_d PInf b = PInf"
| "add_d NInf b = NInf"
| "add_d (Fin x) b = b"

definition sub_d :: "scalar \<Rightarrow> scalar \<Rightarrow> scalar" where
  "sub_d a b = add_d a (neg_d b)"

fun mul_d :: "scalar \<Rightarrow> scalar \<Rightarrow> scalar" where
  "mul_d (Fin x) (Fin y) = overflow (x * y)"
| "mul_d NaN b = NaN"
| "mul_d a NaN = NaN"
| "mul_d (Fin x) b = (if x = 0 then NaN else if 0 < x then b else neg_d b)"
| "mul_d a (Fin y) = (if y = 0 then NaN else if 0 < y then a else neg_d a)"
| "mul_d PInf b = b"
| "mul_d NInf b = neg_d b"

fun div_d :: "scalar \<Rightarrow> scalar \<Rightarrow> scalar" where
  "div_d (Fin x) (Fin y) =
     (if y = 0 then (if x = 0 then NaN else if 0 < x then PInf else NInf)
      else overflow (x / y))"
| "div_d NaN b = NaN"
| "div_d a NaN = NaN"
| "div_d (Fin x) b = Fin 0"
| "div_d a (Fin y) = (if 0 \<le> y then a else neg_d a)"
| "div_d a b = NaN"

fun less_d :: "scalar \<Rightarrow> scalar \<Rightarrow> bool" where
  "less_d (Fin x) (Fin y) = (x < y)"
| "less_d NaN b = False"
| "less_d a NaN = False"
| "less_d NInf NInf = False"
| "less_d NInf b = True"
| "less_d a PInf = (a \<noteq> PInf)"
| "less_d a b = False"

fun log_d :: "scalar \<Rightarrow> scalar" where
  "log_d (Fin x) = (if x < 0 then NaN else if x = 0 then NInf else Fin (ln x))"
| "log_d PInf = PInf"
| "log_d NInf = NaN"
| "log_d NaN = NaN"

fun exp_d :: "scalar \<Rightarrow> scalar" where
  "exp_d (Fin x) = overflow (exp x)"
| "exp_d PInf = PInf"
| "exp_d NInf = Fin 0"
| "exp_d NaN = NaN"

fun sin_d :: "scalar \<Rightarrow> scalar" where
  "sin_d (Fin x) = Fin (sin x)"
| "sin_d a = NaN"

fun cos_d :: "scalar \<Rightarrow> scalar" where
  "cos_d (Fin x) = Fin (cos x)"
| "cos_d a = NaN"

fun tan_d :: "scalar \<Rightarrow> scalar" where
  "tan_d (Fin x) = overflow (tan x)"
| "tan_d a = NaN"

fun sqrt_d :: "scalar \<Rightarrow> scalar" where
  "sqrt_d (Fin x) = (if x < 0 then NaN else Fin (sqrt x))"
| "sqrt_d PInf = PInf"
| "sqrt_d NInf = NaN"
| "sqrt_d NaN = NaN"

fun cbrt_d :: "scalar \<Rightarrow> scalar" where
  "cbrt_d (Fin x) = Fin (root 3 x)"
| "cbrt_d a = a"

text \<open>
  The instance of the interpreter's scalar type at \<^verbatim>\<open>Operon::Scalar\<close>.
  Modelled from the spec: \<^verbatim>\<open>Operon::Numeric::Max\<close> and \<^verbatim>\<open>Operon::Numeric::Min\<close> are
  not among the sources. \<open>Max_T\<close> is the largest representable scalar, \<open>Min_T\<close> the
  lowest one.
\<close>

definition Scalar_arith :: "(scalar, scalar) arith" where
  "Scalar_arith =
     \<lparr> cast = id, plus_T = add_d, minus_T = sub_d, times_T = mul_d, divide_T = div_d,
       log_T = log_d, exp_T = exp_d, sin_T = sin_d, cos_T = cos_d, tan_T = tan_d,
       sqrt_T = sqrt_d, cbrt_T = cbrt_d, square_T = (\<lambda>a. mul_d a a),
       less_T = less_d, IsFinite = isfinite,
       Max_T = Fin DBL_MAX, Min_T = Fin (- DBL_MAX), two_T = Fin 2, default_T = Fin 0 \<rparr>"

section \<open>The residual functor and the coefficient optimizer\<close>

text \<open>
  \<^verbatim>\<open>ParameterizedEvaluation::operator()\<close>: the interpreter runs on the first parameter
  block into the residual buffer, then the target is subtracted row by row.
\<close>

definition ParameterizedEvaluation ::
  "('s, 'a) arith \<Rightarrow> 's Node list \<Rightarrow> 's Dataset \<Rightarrow> 's list \<Rightarrow> Range \<Rightarrow> 'a list \<Rightarrow> 'a list \<Rightarrow>
   (nat \<Rightarrow> nat \<Rightarrow> 'a) \<Rightarrow> error + 'a list" where
  "ParameterizedEvaluation A tree dataset target rng parameters residuals junk =
     (case Evaluate_span A tree dataset rng (Some parameters) (take (Size rng) residuals) junk of
        Inl e \<Rightarrow> Inl e
      | Inr (res, lg) \<Rightarrow>
          if Size rng \<le> length target
          then Inr (map2 (minus_T A) res (map (cast A) (take (Size rng) target)))
          else Inl OutOfBounds)"

text \<open>
  The options \<^verbatim>\<open>Optimize\<close> sets. \<^verbatim>\<open>max_num_iterations\<close> is an \<^verbatim>\<open>int\<close> of the solver
  library: 32 bits, read as a signed number by \<open>sint\<close>.
\<close>

datatype LinearSolverType = DENSE_QR | DENSE_NORMAL_CHOLESKY | SPARSE_NORMAL_CHOLESKY

record Options =
  max_num_iterations :: "32 word"
  linear_solver_type :: LinearSolverType
  minimizer_progress_to_stdout :: bool
  num_threads :: int

text \<open>
  What \<^verbatim>\<open>Optimize\<close> hands to the solver: the residual functor's four references, the mode
  of differentiation, the size of the single parameter block and the number of residuals.
\<close>

record 's CostFunction =
  cost_autodiff :: bool
  cost_tree :: "'s Node list"
  cost_dataset :: "'s Dataset"
  cost_target :: "'s list"
  cost_range :: Range
  parameter_block_size :: nat
  num_residuals :: nat

text \<open>
  The solver library is not part of the repository: it is a parameter. \<open>default_summary\<close>
  is the default-constructed \<^verbatim>\<open>Solver::Summary\<close>, \<open>iterations_size\<close> is
  \<^verbatim>\<open>summary.iterations.size()\<close>, and \<open>Solve options cost coef\<close> gives the value the
  solver leaves in every slot of the parameter block (it works in place, on a block of
  fixed size) and the summary.
\<close>

record ('s, 'sum) ceres =
  default_summary :: "'sum"
  iterations_size :: "'sum \<Rightarrow> nat"
  Solve :: "Options \<Rightarrow> 's CostFunction \<Rightarrow> 's list \<Rightarrow> (nat \<Rightarrow> 's) \<times> 'sum"

text \<open>What \<^verbatim>\<open>Optimize\<close> does beyond its result, in order.\<close>

datatype 's event =
  ReportCoefficients "'s list"
  | CostFunctionCreated "'s CostFunction"
  | SolveCalled Options
  | ReportSummary

text \<open>
  \<^verbatim>\<open>Optimize<autodiff>(tree, dataset, targetValues, range, iterations, writeCoefficients,
  report)\<close>. \<open>iterations\<close> is a \<^verbatim>\<open>size_t\<close>, and
  \<^verbatim>\<open>options.max_num_iterations = iterations - 1\<close> subtracts in 64 bits without sign and
  keeps the low 32 bits. The tree is passed by reference: the function returns it with the
  summary and the events.
\<close>

definition Optimize ::
  "('s, 'sum) ceres \<Rightarrow> bool \<Rightarrow> 's Node list \<Rightarrow> 's Dataset \<Rightarrow> 's list \<Rightarrow> Range \<Rightarrow> 64 word \<Rightarrow>
   bool \<Rightarrow> bool \<Rightarrow> 's Node list \<times> 'sum \<times> 's event list" where
  "Optimize solver autodiff tree dataset targetValues rng iterations writeCoefficients report =
     (let summary = default_summary solver;
          coef = GetCoefficients tree
      in
      if coef = [] then (tree, summary, [])
      else
        let ev1 = (if report then [ReportCoefficients coef] else []);
            costFunction =
              \<lparr> cost_autodiff = autodiff, cost_tree = tree, cost_dataset = dataset,
                cost_target = targetValues, cost_range = rng,
                parameter_block_size = length coef, num_residuals = Size rng \<rparr>;
            options =
              \<lparr> max_num_iterations = ucast (iterations - 1), linear_solver_type = DENSE_QR,
                minimizer_progress_to_stdout = report, num_threads = 1 \<rparr>
        in
        case Solve solver options costFunction coef of
          (slots, summary1) \<Rightarrow>
            let coef1 = map slots [0..<length coef];
                ev2 = ev1 @ [CostFunctionCreated costFunction, SolveCalled options]
                      @ (if report then [ReportSummary, ReportCoefficients coef1] else [])
            in (if writeCoefficients then SetCoefficients tree coef1 else tree, summary1, ev2))"

text \<open>The iteration caps of the solver calls among the events, as signed numbers.\<close>

fun configured_caps :: "'s event list \<Rightarrow> int list" where
  "configured_caps [] = []"
| "configured_caps (SolveCalled options # evs) =
     sint (max_num_iterations options) # configured_caps evs"
| "configured_caps (ev # evs) = configured_caps evs"

text \<open>What of a node \<^verbatim>\<open>Optimize\<close> has no business changing: all but the value.\<close>

definition shape :: "'s Node \<Rightarrow> NodeType \<times> nat \<times> nat \<times> nat \<times> nat" where
  "shape n = (Type n, Arity n, Length n, Depth n, HashValue n)"

section \<open>The fitness evaluators\<close>

text \<open>
  The counters and the iteration budget of \<^verbatim>\<open>EvaluatorBase\<close>, and the parts of the
  problem the evaluators read: \<open>TargetValues\<close> is what
  \<^verbatim>\<open>dataset.GetValues(problem.TargetVariable())\<close> returns.
\<close>

record evaluator =
  fitnessEvaluations :: nat
  localEvaluations :: nat
  iterations :: "64 word"

record 's Problem =
  GetDataset :: "'s Dataset"
  TrainingRange :: Range
  TargetValues :: "'s list"

text \<open>\<^verbatim>\<open>gsl::span::subspan(offset, count)\<close> ends the program when the span is too short.\<close>

definition subspan :: "'a list \<Rightarrow> nat \<Rightarrow> nat \<Rightarrow> error + 'a list" where
  "subspan xs offset count =
     (if offset + count \<le> length xs then Inr (take count (drop offset xs)) else Inl Terminated)"

text \<open>
  The statements the two evaluators share, up to the final prediction: count the
  evaluation, take the target over the training range, optimize the coefficients when
  \<^verbatim>\<open>iterations > 0\<close> (writing them back, without report), and evaluate the tree with its
  own coefficients. The result is the prediction, the target, the evaluator and the tree.
\<close>

definition predict ::
  "(scalar, 'sum) ceres \<Rightarrow> evaluator \<Rightarrow> scalar Problem \<Rightarrow> scalar Node list \<Rightarrow>
   (nat \<Rightarrow> nat \<Rightarrow> scalar) \<Rightarrow>
   error + scalar list \<times> scalar list \<times> evaluator \<times> scalar Node list" where
  "predict solver ev problem genotype junk =
     (let ev1 = ev\<lparr>fitnessEvaluations := fitnessEvaluations ev + 1\<rparr>;
          dataset = GetDataset problem;
          trainingRange = TrainingRange problem
      in
      case subspan (TargetValues problem) (Start trainingRange) (Size trainingRange) of
        Inl e \<Rightarrow> Inl e
      | Inr targetValues \<Rightarrow>
          (case (if 0 < iterations ev1 then
                   (case Optimize solver True genotype dataset targetValues trainingRange
                           (iterations ev1) True False of
                      (genotype1, summary, evs) \<Rightarrow>
                        (genotype1,
                         ev1\<lparr>localEvaluations :=
                               localEvaluations ev1 + iterations_size solver summary\<rparr>))
                 else (genotype, ev1)) of
             (genotype1, ev2) \<Rightarrow>
               (case Evaluate Scalar_arith genotype1 dataset trainingRange None junk of
                  Inl e \<Rightarrow> Inl e
                | Inr (estimatedValues, lg) \<Rightarrow>
                    Inr (estimatedValues, targetValues, ev2, genotype1))))"

text \<open>
  \<^verbatim>\<open>
    if (!std::isfinite(nmse)) {
        nmse = Operon::Numeric::Max<Operon::Scalar>();
    }
    return nmse;
  \<close>
\<close>

definition NormalizedMeanSquaredError_fitness :: "scalar \<Rightarrow> scalar" where
  "NormalizedMeanSquaredError_fitness nmse =
     (if \<not> IsFinite Scalar_arith nmse then Max_T Scalar_arith else nmse)"

text \<open>
  \<^verbatim>\<open>NormalizedMeanSquaredErrorEvaluator::operator()\<close>. The metric
  \<^verbatim>\<open>NormalizedMeanSquaredError\<close> is not among the sources: it is the parameter \<open>NMSE\<close>.
\<close>

definition NormalizedMeanSquaredErrorEvaluator ::
  "(scalar, 'sum) ceres \<Rightarrow> (scalar list \<Rightarrow> scalar list \<Rightarrow> scalar) \<Rightarrow> evaluator \<Rightarrow>
   scalar Problem \<Rightarrow> scalar Node list \<Rightarrow> (nat \<Rightarrow> nat \<Rightarrow> scalar) \<Rightarrow>
   error + scalar \<times> evaluator \<times> scalar Node list" where
  "NormalizedMeanSquaredErrorEvaluator solver NMSE ev problem genotype junk =
     (case predict solver ev problem genotype junk of
        Inl e \<Rightarrow> Inl e
      | Inr (estimatedValues, targetValues, ev1, genotype1) \<Rightarrow>
          Inr (NormalizedMeanSquaredError_fitness (NMSE estimatedValues targetValues),
               ev1, genotype1))"

definition LowerBound :: scalar where
  "LowerBound = Fin 0"

definition UpperBound :: scalar where
  "UpperBound = Fin 1"

text \<open>
  \<^verbatim>\<open>
    if (!std::isfinite(r2)) {
        r2 = 0;
    }
    std::clamp(r2, LowerBound, UpperBound);
    return UpperBound - r2 + LowerBound;
  \<close>
  \<^verbatim>\<open>std::clamp\<close> returns the clamped value and leaves its argument as it is; the
  statement drops what it returns.
\<close>

definition RSquared_fitness :: "scalar \<Rightarrow> scalar" where
  "RSquared_fitness r2 =
     (let r2a = (if \<not> IsFinite Scalar_arith r2 then Fin 0 else r2);
          dropped = clamp_T Scalar_arith r2a LowerBound UpperBound
      in add_d (sub_d UpperBound r2a) LowerBound)"

text \<open>
  \<^verbatim>\<open>RSquaredEvaluator::operator()\<close>. The metric \<^verbatim>\<open>RSquared\<close> is not among the
  sources: it is the parameter \<open>RSquared\<close>.
\<close>

definition RSquaredEvaluator ::
  "(scalar, 'sum) ceres \<Rightarrow> (scalar list \<Rightarrow> scalar list \<Rightarrow> scalar) \<Rightarrow> evaluator \<Rightarrow>
   scalar Problem \<Rightarrow> scalar Node list \<Rightarrow> (nat \<Rightarrow> nat \<Rightarrow> scalar) \<Rightarrow>
   error + scalar \<times> evaluator \<times> scalar Node list" where
  "RSquaredEvaluator solver RSquared ev problem genotype junk =
     (case predict solver ev problem genotype junk of
        Inl e \<Rightarrow> Inl e
      | Inr (estimatedValues, targetValues, ev1, genotype1) \<Rightarrow>
          Inr (RSquared_fitness (RSquared estimatedValues targetValues), ev1, genotype1))"

section \<open>Notions the properties are stated with\<close>

text \<open>
  The slot of node \<open>i\<close> in the coefficient vector: the number of \<open>Constant\<close> and
  \<open>Variable\<close> nodes at the positions before \<open>i\<close>.
\<close>

definition slot_of :: "'s Node list \<Rightarrow> nat \<Rightarrow> nat" where
  "slot_of nodes i = length (GetCoefficients (take i nodes))"

text \<open>The nodes among the first \<open>k\<close> that satisfy \<open>P\<close>, each with its slot, in order.\<close>

definition slots_of :: "('s Node \<Rightarrow> bool) \<Rightarrow> 's Node list \<Rightarrow> nat \<Rightarrow> (nat \<times> nat) list" where
  "slots_of P nodes k = map (\<lambda>i. (i, slot_of nodes i)) (filter (\<lambda>i. P (nodes ! i)) [0..<k])"

text \<open>The parameter reads among a list of reads: node and slot.\<close>

fun param_reads :: "access list \<Rightarrow> (nat \<times> nat) list" where
  "param_reads [] = []"
| "param_reads (ParamRead i k # as) = (i, k) # param_reads as"
| "param_reads (ColumnRead i c off n # as) = param_reads as"

text \<open>
  The reads of the setup pass: none without parameters, and with them one per
  \<open>Constant\<close> node, at the node's slot.
\<close>

definition setup_reads :: "'s Node list \<Rightarrow> 'a list option \<Rightarrow> access list" where
  "setup_reads nodes parameters =
     (case parameters of
        None \<Rightarrow> []
      | Some p \<Rightarrow> map (\<lambda>(i, k). ParamRead i k) (slots_of IsConstant nodes (length nodes)))"

text \<open>
  Two runs of the interpreter on the same tree, one on the tree's own values and one on a
  parameter buffer, are compared through these relations: after the setup of the first
  \<open>k\<close> nodes, inside a batch of \<open>r\<close> rows after the first \<open>k\<close> nodes, and between
  batches. The second run's cursor is where the coefficient vector has node \<open>k\<close>; the
  columns of the constants agree, as do the first \<open>r\<close> rows of the columns that the batch
  has computed.
\<close>

definition setup_rel ::
  "'s Node list \<Rightarrow> nat \<Rightarrow> 'a list list \<times> nat list \<times> nat \<times> access list \<Rightarrow>
   'a list list \<times> nat list \<times> nat \<times> access list \<Rightarrow> bool" where
  "setup_rel nodes k s t =
     (length (fst s) = length nodes \<and> length (fst t) = length nodes \<and>
      fst (snd s) = fst (snd t) \<and> fst (snd (snd t)) = slot_of nodes k \<and>
      (\<forall>j<k. IsConstant (nodes ! j) \<longrightarrow> fst s ! j = fst t ! j))"

definition batch_rel ::
  "'s Node list \<Rightarrow> nat \<Rightarrow> nat \<Rightarrow> 'a list list \<times> nat \<times> access list \<Rightarrow>
   'a list list \<times> nat \<times> access list \<Rightarrow> bool" where
  "batch_rel nodes r k s t =
     (length (fst s) = length nodes \<and> length (fst t) = length nodes \<and>
      fst (snd t) = slot_of nodes k \<and>
      (\<forall>j<length nodes. IsConstant (nodes ! j) \<longrightarrow> fst s ! j = fst t ! j) \<and>
      (\<forall>j<k. take r (fst s ! j) = take r (fst t ! j)))"

definition run_rel ::
  "'s Node list \<Rightarrow> 'a list list \<times> 'a list \<times> access list \<Rightarrow>
   'a list list \<times> 'a list \<times> access list \<Rightarrow> bool" where
  "run_rel nodes s t =
     (length (fst s) = length nodes \<and> length (fst t) = length nodes \<and>
      (\<forall>j<length nodes. IsConstant (nodes ! j) \<longrightarrow> fst s ! j = fst t ! j) \<and>
      fst (snd s) = fst (snd t))"

section \<open>Example inputs\<close>

text \<open>
  Leaves and operators as the trees of the examples have them: a variable with its hash
  and weight, a constant with its value, an operator with its arity and the length of
  its subtree.
\<close>

definition var_leaf :: "nat \<Rightarrow> scalar \<Rightarrow> scalar Node" where
  "var_leaf h w = \<lparr>Type = Variable, Arity = 0, Length = 0, Depth = 1, Value = w, HashValue = h\<rparr>"

definition const_leaf :: "scalar \<Rightarrow> scalar Node" where
  "const_leaf v = \<lparr>Type = Constant, Arity = 0, Length = 0, Depth = 1, Value = v, HashValue = 0\<rparr>"

definition op_node :: "NodeType \<Rightarrow> nat \<Rightarrow> nat \<Rightarrow> scalar Node" where
  "op_node t a l = \<lparr>Type = t, Arity = a, Length = l, Depth = 1, Value = Fin 1, HashValue = 0\<rparr>"

text \<open>A dataset whose variable of hash \<open>k\<close> is column \<open>k\<close>.\<close>

definition table :: "scalar list list \<Rightarrow> scalar Dataset" where
  "table columns = \<lparr>GetIndex = id, Values = columns\<rparr>"

definition rows :: "nat \<Rightarrow> nat \<Rightarrow> Range" where
  "rows first n = \<lparr>Start = first, Size = n\<rparr>"

text \<open>Scratch memory that holds \<open>NaN\<close> everywhere.\<close>

definition fresh :: "nat \<Rightarrow> nat \<Rightarrow> scalar" where
  "fresh j k = NaN"

text \<open>
  A solver that leaves \<open>v\<close> in every slot of the parameter block and reports one
  iteration, its summary being the number of iterations.
\<close>

definition stub_solver :: "scalar \<Rightarrow> (scalar, nat) ceres" where
  "stub_solver v =
     \<lparr>default_summary = 0, iterations_size = id, Solve = (\<lambda>options cost coef. (\<lambda>k. v, 1))\<rparr>"

text \<open>A metric whose value is \<open>0 / 0\<close>, as a ratio of two zero sums is.\<close>

definition zero_ratio :: "scalar list \<Rightarrow> scalar list \<Rightarrow> scalar" where
  "zero_ratio estimated target = div_d (Fin 0) (Fin 0)"


section \<open>Lemmas\<close>

declare batches.simps [simp del]

lemma for_each_append:
  "for_each f (xs @ ys) st = (case for_each f xs st of Inl e \<Rightarrow> Inl e | Inr st' \<Rightarrow> for_each f ys st')"
  by (induction xs arbitrary: st) (auto split: sum.splits)

lemma for_each_upt_Suc:
  "for_each f [0..<Suc n] st =
     (case for_each f [0..<n] st of Inl e \<Rightarrow> Inl e | Inr st' \<Rightarrow> f n st')"
  by (simp add: for_each_append split: sum.splits)

lemma for_each_rel:
  assumes "R 0 s t"
    and "\<And>i s t. i < n \<Longrightarrow> R i s t \<Longrightarrow> rel_sum (=) (R (Suc i)) (f i s) (g i t)"
  shows "rel_sum (=) (R n) (for_each f [0..<n] s) (for_each g [0..<n] t)"
  using assms(2)
proof (induction n)
  case 0
  then show ?case using assms(1) by simp
next
  case (Suc n)
  have IH: "rel_sum (=) (R n) (for_each f [0..<n] s) (for_each g [0..<n] t)"
    using Suc by simp
  show ?case
  proof (cases "for_each f [0..<n] s")
    case (Inl e)
    with IH show ?thesis
      by (cases "for_each g [0..<n] t") (simp_all add: for_each_upt_Suc del: upt_Suc)
  next
    case (Inr s')
    with IH obtain t' where t': "for_each g [0..<n] t = Inr t'" and r: "R n s' t'"
      by (cases "for_each g [0..<n] t") simp_all
    from Suc.prems[OF _ r] have "rel_sum (=) (R (Suc n)) (f n s') (g n t')" by simp
    with Inr t' show ?thesis by (simp add: for_each_upt_Suc del: upt_Suc)
  qed
qed

lemma GetCoefficients_append:
  "GetCoefficients (xs @ ys) = GetCoefficients xs @ GetCoefficients ys"
  by (simp add: GetCoefficients_def)

lemma slot_of_0: "slot_of nodes 0 = 0"
  by (simp add: slot_of_def GetCoefficients_def)

lemma slot_of_Suc:
  "i < length nodes \<Longrightarrow>
   slot_of nodes (Suc i) =
     slot_of nodes i + (if IsConstant (nodes ! i) \<or> IsVariable (nodes ! i) then 1 else 0)"
  by (simp add: slot_of_def take_Suc_conv_app_nth GetCoefficients_def)

lemma coefficient_at_slot:
  assumes "i < length nodes" and "IsConstant (nodes ! i) \<or> IsVariable (nodes ! i)"
  shows "slot_of nodes i < length (GetCoefficients nodes)"
    and "GetCoefficients nodes ! slot_of nodes i = Value (nodes ! i)"
proof -
  have split: "nodes = take i nodes @ nodes ! i # drop (Suc i) nodes"
    using assms(1) by (simp add: id_take_nth_drop)
  have eq: "GetCoefficients nodes =
      GetCoefficients (take i nodes) @ Value (nodes ! i) # GetCoefficients (drop (Suc i) nodes)"
    using assms(2) by (subst split) (simp add: GetCoefficients_def)
  show "slot_of nodes i < length (GetCoefficients nodes)"
    by (subst eq) (simp add: slot_of_def)
  show "GetCoefficients nodes ! slot_of nodes i = Value (nodes ! i)"
    by (subst eq) (simp add: slot_of_def nth_append)
qed

lemma setup_node_rel:
  assumes "k < length nodes" and "setup_rel nodes k s t"
  shows "rel_sum (=) (setup_rel nodes (Suc k))
           (setup_node A nodes ds None k s)
           (setup_node A nodes ds (Some (map (cast A) (GetCoefficients nodes))) k t)"
proof -
  obtain m ind idx lg where s: "s = (m, ind, idx, lg)" by (cases s)
  obtain m' ind' idx' lg' where t: "t = (m', ind', idx', lg')" by (cases t)
  from assms(2) have len: "length m = length nodes" "length m' = length nodes"
    and ind: "ind' = ind" and idx: "idx' = slot_of nodes k"
    and cs: "\<forall>j<k. IsConstant (nodes ! j) \<longrightarrow> m ! j = m' ! j"
    by (simp_all add: setup_rel_def s t)
  show ?thesis
  proof (cases "IsConstant (nodes ! k)")
    case True
    note slot = coefficient_at_slot[OF assms(1), of ] 
    have a: "slot_of nodes k < length (GetCoefficients nodes)"
      and b: "GetCoefficients nodes ! slot_of nodes k = Value (nodes ! k)"
      using slot True by simp_all
    show ?thesis using True assms(1) len cs a b
      by (auto simp: setup_node_def s t ind idx setup_rel_def slot_of_Suc nth_list_update less_Suc_eq)
  next
    case False
    then show ?thesis using assms(1) len cs
      by (auto simp: setup_node_def s t ind idx setup_rel_def slot_of_Suc less_Suc_eq)
  qed
qed

lemma binary_node_rel:
  assumes "k < length nodes" and "length m = length nodes" and "length m' = length nodes"
    and "\<forall>j<k. take r (m ! j) = take r (m' ! j)"
  shows "rel_sum (=)
           (\<lambda>a b. a = m[k := a ! k] \<and> b = m'[k := b ! k] \<and> take r (a ! k) = take r (b ! k))
           (binary_node f nodes k m) (binary_node f nodes k m')"
  using assms
  by (auto simp: binary_node_def Let_def take_map take_zip)

lemma unary_node_rel:
  assumes "k < length nodes" and "length m = length nodes" and "length m' = length nodes"
    and "\<forall>j<k. take r (m ! j) = take r (m' ! j)"
  shows "rel_sum (=)
           (\<lambda>a b. a = m[k := a ! k] \<and> b = m'[k := b ! k] \<and> take r (a ! k) = take r (b ! k))
           (unary_node f k m) (unary_node f k m')"
  using assms
  by (auto simp: unary_node_def Let_def take_map)

lemma lift_rel:
  "rel_sum (=) P x y \<Longrightarrow> (\<And>a b. P a b \<Longrightarrow> Q (fa a) (fb b)) \<Longrightarrow>
   rel_sum (=) Q (map_sum id fa x) (map_sum id fb y)"
  by (cases x; cases y) simp_all

lemma batch_rel_operator:
  assumes "batch_rel nodes r k (m, idx, lg) (m', idx', lg')" and "k < length nodes"
    and "\<not> IsConstant (nodes ! k)" and "\<not> IsVariable (nodes ! k)"
    and "a = m[k := a ! k]" and "b = m'[k := b ! k]" and "take r (a ! k) = take r (b ! k)"
  shows "batch_rel nodes r (Suc k) (a, idx, lg) (b, idx', lg')"
proof -
  from assms(1) have len: "length m = length nodes" "length m' = length nodes"
    and idx: "idx' = slot_of nodes k"
    and cs: "\<forall>j<length nodes. IsConstant (nodes ! j) \<longrightarrow> m ! j = m' ! j"
    and rows: "\<forall>j<k. take r (m ! j) = take r (m' ! j)"
    by (simp_all add: batch_rel_def)
  have la: "length a = length nodes" and lb: "length b = length nodes"
    using assms(5,6) len by (metis length_list_update)+
  have other: "\<And>j. j \<noteq> k \<Longrightarrow> a ! j = m ! j \<and> b ! j = m' ! j"
    using assms(5,6) by (metis nth_list_update_neq)
  have c1: "\<forall>j<length nodes. IsConstant (nodes ! j) \<longrightarrow> a ! j = b ! j"
    using cs other assms(3) by metis
  have c2: "\<forall>j<Suc k. take r (a ! j) = take r (b ! j)"
    using rows other assms(7) by (metis less_Suc_eq)
  show ?thesis
    using la lb c1 c2 assms(2,3,4) by (simp add: batch_rel_def idx slot_of_Suc)
qed

lemma eval_node_rel:
  assumes k: "k < length nodes" and rel: "batch_rel nodes r k s t"
  shows "rel_sum (=) (batch_rel nodes r (Suc k))
           (eval_node A nodes ds rng None ind row r k s)
           (eval_node A nodes ds rng (Some (map (cast A) (GetCoefficients nodes))) ind row r k t)"
proof -
  obtain m idx lg where s: "s = (m, idx, lg)" by (cases s)
  obtain m' idx' lg' where t: "t = (m', idx', lg')" by (cases t)
  from rel have len: "length m = length nodes" "length m' = length nodes"
    and idx: "idx' = slot_of nodes k"
    and cs: "\<forall>j<length nodes. IsConstant (nodes ! j) \<longrightarrow> m ! j = m' ! j"
    and rows: "\<forall>j<k. take r (m ! j) = take r (m' ! j)"
    by (simp_all add: batch_rel_def s t)
  have bin: "\<And>f. \<not> IsConstant (nodes ! k) \<Longrightarrow> \<not> IsVariable (nodes ! k) \<Longrightarrow>
     rel_sum (=) (batch_rel nodes r (Suc k))
       (map_sum id (\<lambda>a. (a, idx, lg)) (binary_node f nodes k m))
       (map_sum id (\<lambda>b. (b, idx', lg')) (binary_node f nodes k m'))"
    by (rule lift_rel[OF binary_node_rel[OF k len rows]])
       (rule batch_rel_operator[OF rel[unfolded s t] k], simp_all)
  have un: "\<And>f. \<not> IsConstant (nodes ! k) \<Longrightarrow> \<not> IsVariable (nodes ! k) \<Longrightarrow>
     rel_sum (=) (batch_rel nodes r (Suc k))
       (map_sum id (\<lambda>a. (a, idx, lg)) (unary_node f k m))
       (map_sum id (\<lambda>b. (b, idx', lg')) (unary_node f k m'))"
    by (rule lift_rel[OF unary_node_rel[OF k len rows]])
       (rule batch_rel_operator[OF rel[unfolded s t] k], simp_all)
  show ?thesis
  proof (cases "Type (nodes ! k)")
    case Constant
    then have "IsConstant (nodes ! k)" by (simp add: IsConstant_def)
    then show ?thesis using Constant k len cs rows
      by (auto simp: eval_node_def s t idx batch_rel_def slot_of_Suc less_Suc_eq)
  next
    case Variable
    then have v: "IsVariable (nodes ! k)" and nc: "\<not> IsConstant (nodes ! k)"
      by (simp_all add: IsVariable_def IsConstant_def)
    have a: "slot_of nodes k < length (GetCoefficients nodes)"
      and b: "GetCoefficients nodes ! slot_of nodes k = Value (nodes ! k)"
      using coefficient_at_slot[OF k] v by simp_all
    show ?thesis using Variable k len cs rows a b v nc
      by (auto simp: eval_node_def variable_node_def Let_def s t idx batch_rel_def slot_of_Suc
            less_Suc_eq nth_list_update)
  next
    case Unknown
    then show ?thesis by (simp add: eval_node_def s t)
  qed (use bin un in \<open>simp_all add: eval_node_def s t IsConstant_def IsVariable_def\<close>)
qed

lemma batch_run_rel:
  assumes "run_rel nodes s t"
  shows "rel_sum (=) (run_rel nodes)
           (batch A nodes ds rng None ind row s)
           (batch A nodes ds rng (Some (map (cast A) (GetCoefficients nodes))) ind row t)"
proof -
  obtain m res lg where s: "s = (m, res, lg)" by (cases s)
  obtain m' res' lg' where t: "t = (m', res', lg')" by (cases t)
  define r where "r = min BATCHSIZE (Size rng - row)"
  define p where "p = map (cast A) (GetCoefficients nodes)"
  from assms have len: "length m = length nodes" "length m' = length nodes"
    and cs: "\<forall>j<length nodes. IsConstant (nodes ! j) \<longrightarrow> m ! j = m' ! j"
    and res: "res' = res"
    by (simp_all add: run_rel_def s t)
  have init: "batch_rel nodes r 0 (m, 0, lg) (m', 0, lg')"
    using len cs by (simp add: batch_rel_def slot_of_0)
  have loop: "rel_sum (=) (batch_rel nodes r (length nodes))
      (for_each (eval_node A nodes ds rng None ind row r) [0..<length nodes] (m, 0, lg))
      (for_each (eval_node A nodes ds rng (Some p) ind row r) [0..<length nodes] (m', 0, lg'))"
    unfolding p_def by (rule for_each_rel[where R = "batch_rel nodes r", OF init]) (rule eval_node_rel)
  show ?thesis
  proof (cases "for_each (eval_node A nodes ds rng None ind row r) [0..<length nodes] (m, 0, lg)")
    case (Inl e)
    with loop show ?thesis
      by (cases "for_each (eval_node A nodes ds rng (Some p) ind row r) [0..<length nodes] (m', 0, lg')")
         (simp_all add: batch_def s t r_def[symmetric] p_def[symmetric])
  next
    case (Inr s1)
    with loop obtain t1 where t1:
      "for_each (eval_node A nodes ds rng (Some p) ind row r) [0..<length nodes] (m', 0, lg') = Inr t1"
      and r1: "batch_rel nodes r (length nodes) s1 t1"
      by (cases "for_each (eval_node A nodes ds rng (Some p) ind row r) [0..<length nodes] (m', 0, lg')")
         simp_all
    obtain m1 idx1 lg1 where s1: "s1 = (m1, idx1, lg1)" by (cases s1)
    obtain m1' idx1' lg1' where t1': "t1 = (m1', idx1', lg1')" by (cases t1)
    from r1 have len1: "length m1 = length nodes" "length m1' = length nodes"
      and cs1: "\<forall>j<length nodes. IsConstant (nodes ! j) \<longrightarrow> m1 ! j = m1' ! j"
      and rows: "\<forall>j<length nodes. take r (m1 ! j) = take r (m1' ! j)"
      by (simp_all add: batch_rel_def s1 t1')
    have last: "take r (m1 ! (length nodes - 1)) = take r (m1' ! (length nodes - 1))"
    proof (cases "nodes = []")
      case True
      with len1 show ?thesis by simp
    next
      case False
      then show ?thesis using rows by simp
    qed
    show ?thesis
      using Inr t1 len1 cs1 last
      by (auto simp: batch_def s t s1 t1' res r_def[symmetric] p_def[symmetric] run_rel_def
            split: sum.splits)
  qed
qed

lemma batches_run_rel:
  assumes "run_rel nodes s t"
  shows "rel_sum (=) (run_rel nodes)
           (batches A nodes ds rng None ind row s)
           (batches A nodes ds rng (Some (map (cast A) (GetCoefficients nodes))) ind row t)"
  using assms
proof (induction "Size rng - row" arbitrary: row s t rule: less_induct)
  case less
  define p where "p = map (cast A) (GetCoefficients nodes)"
  show ?case
  proof (cases "row < Size rng")
    case False
    then show ?thesis using less.prems
      by (simp add: batches.simps[of _ _ _ _ _ _ row])
  next
    case True
    note step = batch_run_rel[OF less.prems, of A ds rng ind row, folded p_def]
    show ?thesis
    proof (cases "batch A nodes ds rng None ind row s")
      case (Inl e)
      with step True show ?thesis
        by (cases "batch A nodes ds rng (Some p) ind row t")
           (simp_all add: batches.simps[of _ _ _ _ _ _ row] p_def[symmetric])
    next
      case (Inr s1)
      with step obtain t1 where t1: "batch A nodes ds rng (Some p) ind row t = Inr t1"
        and r1: "run_rel nodes s1 t1"
        by (cases "batch A nodes ds rng (Some p) ind row t") simp_all
      have "Size rng - (row + BATCHSIZE) < Size rng - row"
        using True by (simp add: BATCHSIZE_def)
      from less.hyps[OF this r1] show ?thesis
        using Inr t1 True
        by (simp add: batches.simps[of _ _ _ _ _ _ row] p_def[symmetric])
    qed
  qed
qed

lemma Evaluate_span_parameters:
  "map_sum id fst (Evaluate_span A nodes ds rng None result junk) =
   map_sum id fst
     (Evaluate_span A nodes ds rng (Some (map (cast A) (GetCoefficients nodes))) result junk')"
proof -
  define p where "p = map (cast A) (GetCoefficients nodes)"
  define m0 where "m0 = map (\<lambda>j. map (junk j) [0..<BATCHSIZE]) [0..<length nodes]"
  define m0' where "m0' = map (\<lambda>j. map (junk' j) [0..<BATCHSIZE]) [0..<length nodes]"
  define i0 where "i0 = replicate (length nodes) (0::nat)"
  have init: "setup_rel nodes 0 (m0, i0, 0, []) (m0', i0, 0, [])"
    by (simp add: setup_rel_def m0_def m0'_def slot_of_0)
  have stp: "rel_sum (=) (setup_rel nodes (length nodes))
      (for_each (setup_node A nodes ds None) [0..<length nodes] (m0, i0, 0, []))
      (for_each (setup_node A nodes ds (Some p)) [0..<length nodes] (m0', i0, 0, []))"
    unfolding p_def by (rule for_each_rel[where R = "setup_rel nodes", OF init]) (rule setup_node_rel)
  show ?thesis
  proof (cases "for_each (setup_node A nodes ds None) [0..<length nodes] (m0, i0, 0, [])")
    case (Inl e)
    with stp show ?thesis
      by (cases "for_each (setup_node A nodes ds (Some p)) [0..<length nodes] (m0', i0, 0, [])")
         (simp_all add: Evaluate_span_def m0_def[symmetric] m0'_def[symmetric] i0_def[symmetric]
             p_def[symmetric])
  next
    case (Inr s1)
    with stp obtain t1 where t1:
      "for_each (setup_node A nodes ds (Some p)) [0..<length nodes] (m0', i0, 0, []) = Inr t1"
      and r1: "setup_rel nodes (length nodes) s1 t1"
      by (cases "for_each (setup_node A nodes ds (Some p)) [0..<length nodes] (m0', i0, 0, [])")
         simp_all
    obtain m ind idx lg where s1: "s1 = (m, ind, idx, lg)" by (cases s1)
    obtain m' ind' idx' lg' where t1': "t1 = (m', ind', idx', lg')" by (cases t1)
    from r1 have ind: "ind' = ind" and rr: "run_rel nodes (m, result, lg) (m', result, lg')"
      by (simp_all add: setup_rel_def run_rel_def s1 t1')
    note run = batches_run_rel[OF rr, of A ds rng ind 0, folded p_def]
    show ?thesis
    proof (cases "batches A nodes ds rng None ind 0 (m, result, lg)")
      case (Inl e)
      with run Inr t1 show ?thesis
        by (cases "batches A nodes ds rng (Some p) ind 0 (m', result, lg')")
           (simp_all add: Evaluate_span_def m0_def[symmetric] m0'_def[symmetric] i0_def[symmetric]
             p_def[symmetric] s1 t1' ind)
    next
      case b: (Inr s2)
      with run obtain t2 where t2: "batches A nodes ds rng (Some p) ind 0 (m', result, lg') = Inr t2"
        and r2: "run_rel nodes s2 t2"
        by (cases "batches A nodes ds rng (Some p) ind 0 (m', result, lg')") simp_all
      from r2 have "fst (snd s2) = fst (snd t2)" by (simp add: run_rel_def)
      then show ?thesis using Inr t1 b t2
        by (cases s2; cases t2)
           (simp add: Evaluate_span_def m0_def[symmetric] m0'_def[symmetric] i0_def[symmetric]
             p_def[symmetric] s1 t1' ind split: prod.splits)
    qed
  qed
qed

lemma for_each_total:
  assumes "I 0 s"
    and "\<And>i s. i < n \<Longrightarrow> I i s \<Longrightarrow> \<exists>s'. f i s = Inr s' \<and> I (Suc i) s'"
  shows "\<exists>s'. for_each f [0..<n] s = Inr s' \<and> I n s'"
  using assms(2)
proof (induction n)
  case 0
  then show ?case using assms(1) by simp
next
  case (Suc n)
  then obtain s1 where s1: "for_each f [0..<n] s = Inr s1" "I n s1"
    by (metis less_Suc_eq)
  from Suc.prems[OF _ s1(2)] obtain s2 where "f n s1 = Inr s2" "I (Suc n) s2" by auto
  with s1 show ?case by (simp add: for_each_upt_Suc del: upt_Suc)
qed

lemma for_each_invariant:
  assumes "for_each f [0..<n] s = Inr s'" and "I 0 s"
    and "\<And>i s s'. i < n \<Longrightarrow> I i s \<Longrightarrow> f i s = Inr s' \<Longrightarrow> I (Suc i) s'"
  shows "I n s'"
  using assms(1,3)
proof (induction n arbitrary: s')
  case 0
  then show ?case using assms(2) by simp
next
  case (Suc n)
  from Suc.prems(1) obtain s1 where s1: "for_each f [0..<n] s = Inr s1" and l: "f n s1 = Inr s'"
    by (auto simp: for_each_upt_Suc simp del: upt_Suc split: sum.splits)
  have "I n s1" using Suc.IH[OF s1] Suc.prems(2) by simp
  then show ?case using Suc.prems(2)[OF _ _ l] by simp
qed

lemma param_reads_append: "param_reads (xs @ ys) = param_reads xs @ param_reads ys"
  by (induction xs rule: param_reads.induct) simp_all

lemma slots_of_0: "slots_of P nodes 0 = []"
  by (simp add: slots_of_def)

lemma slots_of_Suc:
  "slots_of P nodes (Suc k) =
     slots_of P nodes k @ (if P (nodes ! k) then [(k, slot_of nodes k)] else [])"
  by (simp add: slots_of_def)

lemma setup_pass_Some:
  assumes "length (GetCoefficients nodes) \<le> length p"
  shows "\<exists>m ind idx. for_each (setup_node A nodes ds (Some p)) [0..<length nodes]
            (m0 :: 'a list list, i0, 0, [])
            = Inr (m, ind, idx, map (\<lambda>(i, k). ParamRead i k) (slots_of IsConstant nodes (length nodes)))"
proof -
  let ?I = "\<lambda>k (s :: 'a list list \<times> nat list \<times> nat \<times> access list).
     fst (snd (snd s)) = slot_of nodes k \<and>
     snd (snd (snd s)) = map (\<lambda>(i, k). ParamRead i k) (slots_of IsConstant nodes k)"
  have "\<exists>s'. for_each (setup_node A nodes ds (Some p)) [0..<length nodes] (m0, i0, 0, []) = Inr s'
      \<and> ?I (length nodes) s'"
  proof (rule for_each_total[where I = ?I])
    show "?I 0 (m0, i0, 0, [])" by (simp add: slot_of_0 slots_of_0)
  next
    fix i and s :: "'a list list \<times> nat list \<times> nat \<times> access list"
    assume i: "i < length nodes" and inv: "?I i s"
    obtain m ind idx lg where s: "s = (m, ind, idx, lg)" by (cases s)
    have "IsConstant (nodes ! i) \<Longrightarrow> slot_of nodes i < length p"
      using coefficient_at_slot(1)[OF i] assms by fastforce
    then show "\<exists>s'. setup_node A nodes ds (Some p) i s = Inr s' \<and> ?I (Suc i) s'"
      using inv i
      by (auto simp: setup_node_def s slot_of_Suc slots_of_Suc IsConstant_def IsVariable_def)
  qed
  then show ?thesis by (metis prod.collapse)
qed

lemma setup_pass_None:
  "\<exists>m ind idx. for_each (setup_node A nodes ds None) [0..<length nodes]
      (m0 :: 'a list list, i0, 0, [])
      = Inr (m, ind, idx, [])"
proof -
  let ?I = "\<lambda>(k::nat) (s :: 'a list list \<times> nat list \<times> nat \<times> access list). snd (snd (snd s)) = []"
  have "\<exists>s'. for_each (setup_node A nodes ds None) [0..<length nodes] (m0, i0, 0, []) = Inr s'
      \<and> ?I (length nodes) s'"
  proof (rule for_each_total[where I = ?I])
    show "?I 0 (m0, i0, 0, [])" by simp
  next
    fix i and s :: "'a list list \<times> nat list \<times> nat \<times> access list"
    assume "?I i s"
    then show "\<exists>s'. setup_node A nodes ds None i s = Inr s' \<and> ?I (Suc i) s'"
      by (cases s) (auto simp: setup_node_def)
  qed
  then show ?thesis by (metis prod.collapse)
qed

lemma MinMax_Nil: "MinMax A [] = (Max_T A, Min_T A)"
  by (simp add: MinMax_def)

lemma LimitToRange_Nil: "LimitToRange A [] mn mx = []"
  by (simp add: LimitToRange_def Let_def)

lemma eval_node_Constant:
  "Type (nodes ! i) = Constant \<Longrightarrow>
   eval_node A nodes ds rng parameters ind row r i (m, idx, lg) = Inr (m, idx + 1, lg)"
  by (simp add: eval_node_def)

lemma map_sum_eq_Inr: "(map_sum id f x = Inr y) = (\<exists>a. x = Inr a \<and> y = f a)"
  by (cases x) auto

lemma eval_node_reads:
  assumes "i < length nodes" and "idx = slot_of nodes i"
    and "eval_node A nodes ds rng (Some p) ind row r i (m, idx, lg) = Inr (m', idx', lg')"
  shows "idx' = slot_of nodes (Suc i) \<and>
         take (length lg) lg' = lg \<and>
         param_reads (drop (length lg) lg') =
           (if IsVariable (nodes ! i) then [(i, slot_of nodes i)] else [])"
proof (cases "Type (nodes ! i)")
  case Variable
  then show ?thesis using assms
    by (auto simp: eval_node_def variable_node_def Let_def slot_of_Suc IsVariable_def
          IsConstant_def split: if_splits)
qed (use assms in \<open>auto simp: eval_node_def slot_of_Suc IsVariable_def IsConstant_def
       map_sum_eq_Inr\<close>)

lemma batch_nodes_reads:
  assumes "for_each (eval_node A nodes ds rng (Some p) ind row r) [0..<length nodes] (m, 0, lg)
           = Inr (m', idx', lg')"
  shows "take (length lg) lg' = lg \<and>
         param_reads (drop (length lg) lg') = slots_of IsVariable nodes (length nodes)"
proof -
  let ?I = "\<lambda>k (s :: 'a list list \<times> nat \<times> access list).
     fst (snd s) = slot_of nodes k \<and> take (length lg) (snd (snd s)) = lg \<and>
     param_reads (drop (length lg) (snd (snd s))) = slots_of IsVariable nodes k"
  have "?I (length nodes) (m', idx', lg')"
  proof (rule for_each_invariant[where I = ?I, OF assms])
    show "?I 0 (m, 0, lg)" by (simp add: slot_of_0 slots_of_0)
  next
    fix i and s s' :: "'a list list \<times> nat \<times> access list"
    assume i: "i < length nodes" and inv: "?I i s"
      and step: "eval_node A nodes ds rng (Some p) ind row r i s = Inr s'"
    obtain m1 idx1 lg1 where s: "s = (m1, idx1, lg1)" by (cases s)
    obtain m2 idx2 lg2 where s': "s' = (m2, idx2, lg2)" by (cases s')
    from inv have idx1: "idx1 = slot_of nodes i" and pre: "take (length lg) lg1 = lg"
      and rd: "param_reads (drop (length lg) lg1) = slots_of IsVariable nodes i"
      by (simp_all add: s)
    from eval_node_reads[OF i idx1 step[unfolded s s']]
    have a: "idx2 = slot_of nodes (Suc i)" and b: "take (length lg1) lg2 = lg1"
      and c: "param_reads (drop (length lg1) lg2) =
              (if IsVariable (nodes ! i) then [(i, slot_of nodes i)] else [])"
      by simp_all
    from pre have le: "length lg \<le> length lg1" by (metis length_take min.cobounded2 min.commute)
    have lg2: "lg2 = lg1 @ drop (length lg1) lg2" using b by (metis append_take_drop_id)
    have lg1: "lg1 = lg @ drop (length lg) lg1" using pre by (metis append_take_drop_id)
    have d: "drop (length lg) lg2 = drop (length lg) lg1 @ drop (length lg1) lg2"
      by (subst lg2) (simp add: le)
    have e: "take (length lg) lg2 = lg"
      by (subst lg2) (simp add: le pre)
    show "?I (Suc i) s'"
      using a e by (simp add: s' d param_reads_append rd c slots_of_Suc)
  qed
  then show ?thesis by simp
qed

lemma batch_reads:
  assumes "batch A nodes ds rng (Some p) ind row (m, res, lg) = Inr (m', res', lg')"
  shows "take (length lg) lg' = lg \<and>
         param_reads (drop (length lg) lg') = slots_of IsVariable nodes (length nodes)"
  using assms batch_nodes_reads[of A nodes ds rng p ind row "min BATCHSIZE (Size rng - row)" m lg]
  by (auto simp: batch_def Let_def split: sum.splits)

lemma batch_count_aux: "(k + 64 + 63) div 64 = Suc ((k + 63) div (64::nat))"
proof -
  have "(k + 64 + 63) = (k + 63) + (64::nat)" by simp
  then have "(k + 64 + 63) div 64 = ((k + 63) + 64) div (64::nat)" by presburger
  also have "\<dots> = (k + 63) div 64 + 1" by (rule div_add_self2) simp
  finally show ?thesis by simp
qed

lemma batch_count:
  assumes "row < n"
  shows "(n - row + (BATCHSIZE - 1)) div BATCHSIZE =
          Suc ((n - (row + BATCHSIZE) + (BATCHSIZE - 1)) div BATCHSIZE)"
proof (cases "64 \<le> n - row")
  case True
  define k where "k = n - (row + 64)"
  have "n - row = k + 64" using True by (simp add: k_def)
  then show ?thesis
    unfolding BATCHSIZE_def k_def[symmetric] using batch_count_aux[of k] by simp
next
  case False
  then have a: "n - (row + 64) = 0" by simp
  have "(n - row + 63) div 64 = 1"
    by (rule div_nat_eqI) (use False assms in simp_all)
  then show ?thesis unfolding BATCHSIZE_def using a by simp
qed

lemma setup_pass_reads:
  assumes "for_each (setup_node A nodes ds (Some p)) [0..<length nodes]
             (m0 :: 'a list list, i0, 0, []) = Inr (m, ind, idx, lg)"
  shows "lg = map (\<lambda>(i, k). ParamRead i k) (slots_of IsConstant nodes (length nodes))"
proof -
  let ?I = "\<lambda>k (s :: 'a list list \<times> nat list \<times> nat \<times> access list).
     fst (snd (snd s)) = slot_of nodes k \<and>
     snd (snd (snd s)) = map (\<lambda>(i, k). ParamRead i k) (slots_of IsConstant nodes k)"
  have "?I (length nodes) (m, ind, idx, lg)"
  proof (rule for_each_invariant[where I = ?I, OF assms])
    show "?I 0 (m0, i0, 0, [])" by (simp add: slot_of_0 slots_of_0)
  next
    fix i and s s' :: "'a list list \<times> nat list \<times> nat \<times> access list"
    assume "i < length nodes" and "?I i s" and "setup_node A nodes ds (Some p) i s = Inr s'"
    then show "?I (Suc i) s'"
      by (cases s)
         (auto simp: setup_node_def slot_of_Suc slots_of_Suc IsConstant_def IsVariable_def
            split: if_splits)
  qed
  then show ?thesis by simp
qed

lemma param_reads_ParamRead: "param_reads (map (\<lambda>(i, k). ParamRead i k) xs) = xs"
  by (induction xs) auto

lemma batches_reads:
  assumes "batches A nodes ds rng (Some p) ind row (m, res, lg) = Inr (m', res', lg')"
  shows "take (length lg) lg' = lg \<and>
         param_reads (drop (length lg) lg') =
           concat (replicate ((Size rng - row + (BATCHSIZE - 1)) div BATCHSIZE)
                     (slots_of IsVariable nodes (length nodes)))"
  using assms
proof (induction "Size rng - row" arbitrary: row m res lg rule: less_induct)
  case less
  show ?case
  proof (cases "row < Size rng")
    case False
    with less.prems show ?thesis
      by (simp add: batches.simps[of _ _ _ _ _ _ row] BATCHSIZE_def)
  next
    case True
    with less.prems obtain m1 res1 lg1 where
      b: "batch A nodes ds rng (Some p) ind row (m, res, lg) = Inr (m1, res1, lg1)"
      and rest: "batches A nodes ds rng (Some p) ind (row + BATCHSIZE) (m1, res1, lg1)
                 = Inr (m', res', lg')"
      by (auto simp: batches.simps[of _ _ _ _ _ _ row] split: sum.splits)
    from batch_reads[OF b] have pre1: "take (length lg) lg1 = lg"
      and rd1: "param_reads (drop (length lg) lg1) = slots_of IsVariable nodes (length nodes)"
      by simp_all
    have dec: "Size rng - (row + BATCHSIZE) < Size rng - row"
      using True by (simp add: BATCHSIZE_def)
    from less.hyps[OF dec rest] have pre2: "take (length lg1) lg' = lg1"
      and rd2: "param_reads (drop (length lg1) lg') =
         concat (replicate ((Size rng - (row + BATCHSIZE) + (BATCHSIZE - 1)) div BATCHSIZE)
                   (slots_of IsVariable nodes (length nodes)))"
      by simp_all
    from pre1 have le: "length lg \<le> length lg1" by (metis length_take min.cobounded2 min.commute)
    have lg': "lg' = lg1 @ drop (length lg1) lg'" using pre2 by (metis append_take_drop_id)
    have d: "drop (length lg) lg' = drop (length lg) lg1 @ drop (length lg1) lg'"
      by (subst lg') (simp add: le)
    have e: "take (length lg) lg' = lg"
      by (subst lg') (simp add: le pre1)
    have cnt: "(Size rng - row + (BATCHSIZE - 1)) div BATCHSIZE =
          Suc ((Size rng - (row + BATCHSIZE) + (BATCHSIZE - 1)) div BATCHSIZE)"
      using True by (rule batch_count)
    show ?thesis
      unfolding cnt by (simp add: e d param_reads_append rd1 rd2)
  qed
qed

lemma Evaluate_reads:
  assumes "Evaluate A nodes ds rng (Some p) junk = Inr (out, lg)"
  shows "param_reads lg =
           slots_of IsConstant nodes (length nodes) @
           concat (replicate ((Size rng + (BATCHSIZE - 1)) div BATCHSIZE)
                     (slots_of IsVariable nodes (length nodes)))"
proof -
  define S where "S = for_each (setup_node A nodes ds (Some p)) [0..<length nodes]
          (map (\<lambda>j. map (junk j) [0..<BATCHSIZE]) [0..<length nodes],
           replicate (length nodes) 0, 0, [])"
  from assms obtain s1 where s1: "S = Inr s1"
    by (cases S) (simp_all add: Evaluate_def Evaluate_span_def S_def[symmetric])
  obtain m ind idx lg0 where s: "S = Inr (m, ind, idx, lg0)"
    using s1 by (cases s1) simp
  define B where "B = batches A nodes ds rng (Some p) ind 0
              (m, replicate (Size rng) (default_T A), lg0)"
  from assms s have ne: "nodes \<noteq> []"
    by (auto simp: Evaluate_def Evaluate_span_def S_def[symmetric] split: if_splits)
  from assms s ne obtain s2 where s2: "B = Inr s2"
    by (cases B) (simp_all add: Evaluate_def Evaluate_span_def S_def[symmetric] B_def[symmetric])
  obtain m' res' lg' where b': "B = Inr (m', res', lg')"
    using s2 by (cases s2) simp
  from assms s ne b' have "lg' = lg"
    by (simp add: Evaluate_def Evaluate_span_def S_def[symmetric] B_def[symmetric]
          split: prod.splits)
  with b' have b: "B = Inr (m', res', lg)" by simp
  note s = s[unfolded S_def] and b = b[unfolded B_def]
  from setup_pass_reads[OF s]
  have lg0: "param_reads lg0 = slots_of IsConstant nodes (length nodes)"
    by (simp add: param_reads_ParamRead)
  from batches_reads[OF b] have pre: "take (length lg0) lg = lg0"
    and rd: "param_reads (drop (length lg0) lg) =
       concat (replicate ((Size rng + (BATCHSIZE - 1)) div BATCHSIZE)
                 (slots_of IsVariable nodes (length nodes)))"
    by simp_all
  have "lg = lg0 @ drop (length lg0) lg" using pre by (metis append_take_drop_id)
  then have "param_reads lg = param_reads lg0 @ param_reads (drop (length lg0) lg)"
    by (metis param_reads_append)
  then show ?thesis by (simp add: lg0 rd)
qed

text \<open>Facts that evaluate the interpreter on the small inputs of the examples.\<close>

lemma upt_0_1: "[0..<1] = [0::nat]" by simp

lemma upt_0_2: "[0..<2] = [0, 1::nat]" by (simp add: upt_conv_Cons)

lemma upt_0_3: "[0..<3] = [0, 1, 2::nat]" by (simp add: upt_conv_Cons)

lemma replicate_2: "replicate 2 x = [x, x]" by (simp add: numeral_2_eq_2)

lemma replicate_3: "replicate 3 x = [x, x, x]" by (simp add: numeral_3_eq_3)

lemmas run_defs =
  Evaluate_def Evaluate_span_def batch_def eval_node_def variable_node_def binary_node_def
  unary_node_def setup_node_def write_segment_def MinMax_def LimitToRange_def clamp_T_def
  Scalar_arith_def var_leaf_def const_leaf_def op_node_def table_def rows_def
  IsConstant_def IsVariable_def BATCHSIZE_def overflow_def DBL_MAX_def sub_d_def Let_def
  batches.simps upt_0_1 upt_0_2 upt_0_3 replicate_2 replicate_3 take_map take_zip

text \<open>The narrowing of \<^verbatim>\<open>iterations - 1\<close> to the solver's \<^verbatim>\<open>int\<close>.\<close>

lemma cap_word:
  fixes n :: "64 word"
  assumes "0 < n" and "n \<le> 2 ^ 31"
  shows "sint (ucast (n - 1) :: 32 word) = uint n - 1"
proof -
  have k1: "1 \<le> uint n" using assms(1) by (simp add: word_less_def)
  have k2: "uint n \<le> 2 ^ 31" using assms(2) by (simp add: word_le_def)
  have "uint (1 :: 64 word) \<le> uint n" using k1 by simp
  then have a: "uint (n - 1) = uint n - 1" using uint_sub_lem[of 1 n] by simp
  have b: "uint (ucast (n - 1) :: 32 word) = uint n - 1"
    using k1 k2 by (simp add: unsigned_ucast_eq a take_bit_int_eq_self)
  have "sint (ucast (n - 1) :: 32 word) = signed_take_bit 31 (uint n - 1)"
    by (simp add: sint_uint b)
  also have "\<dots> = uint n - 1"
    using k1 k2 by (intro signed_take_bit_int_eq_self) simp_all
  finally show ?thesis .
qed

lemma cap_zero: "sint (ucast (- 1 :: 64 word) :: 32 word) = - 1"
  by code_simp

text \<open>Writing coefficients back changes values only, and only where a coefficient is.\<close>

lemma SetCoefficients_shape: "map shape (SetCoefficients tree cs) = map shape tree"
  by (induction tree cs rule: SetCoefficients.induct) (auto simp: shape_def split: list.splits)

lemma SetCoefficients_other:
  "i < length tree \<Longrightarrow> \<not> IsConstant (tree ! i) \<Longrightarrow> \<not> IsVariable (tree ! i) \<Longrightarrow>
   SetCoefficients tree cs ! i = tree ! i"
  by (induction tree cs arbitrary: i rule: SetCoefficients.induct)
     (auto simp: nth_Cons split: list.splits nat.splits)

lemma eval_node_Sub:
  assumes "Type (nodes ! i) = Sub" and "0 < i" and "Length (nodes ! (i - 1)) + 2 \<le> i"
  shows "eval_node A nodes dataset rng parameters indices row r i (m, idx, lg) =
     Inr (m[i := map2 (minus_T A) (m ! (i - 1)) (m ! (i - 1 - Length (nodes ! (i - 1)) - 1))],
          idx, lg)"
  using assms by (simp add: eval_node_def binary_node_def Let_def)

text \<open>
  When no value of the output is finite, \<open>MinMax\<close> returns the two limits of the scalar
  type and every entry becomes their midrange.
\<close>

lemma MinMax_loop_no_finite:
  "list_all (\<lambda>v. \<not> IsFinite A v) vs \<Longrightarrow> MinMax_loop A vs (mn, mx) = (mn, mx)"
  by (induction vs) simp_all

lemma LimitToRange_no_finite:
  assumes "list_all (\<lambda>v. \<not> IsFinite A v) vs"
  shows "MinMax A vs = (Max_T A, Min_T A)"
    and "LimitToRange A vs (Max_T A) (Min_T A) =
         replicate (length vs) (divide_T A (plus_T A (Max_T A) (Min_T A)) (two_T A))"
proof -
  show "MinMax A vs = (Max_T A, Min_T A)"
    using assms by (simp add: MinMax_def MinMax_loop_no_finite)
  show "LimitToRange A vs (Max_T A) (Min_T A) =
         replicate (length vs) (divide_T A (plus_T A (Max_T A) (Min_T A)) (two_T A))"
    using assms by (induction vs) (simp_all add: LimitToRange_def Let_def)
qed

text \<open>The \<open>Variable\<close> case of the switch with parameters, and the cursor inside a batch.\<close>

lemma eval_node_Variable:
  assumes "Type (nodes ! k) = Variable" and "idx < length p"
    and "indices ! k < length (Values dataset)"
    and "Start rng + row + r \<le> length (Values dataset ! (indices ! k))"
  shows "eval_node A nodes dataset rng (Some p) indices row r k (m, idx, lg) =
     Inr (m[k := map (\<lambda>x. times_T A (p ! idx) (cast A x))
                   (take r (drop (Start rng + row) (Values dataset ! (indices ! k))))
                 @ drop r (m ! k)],
          idx + 1,
          lg @ [ParamRead k idx, ColumnRead k (indices ! k) (Start rng + row) r])"
  using assms by (simp add: eval_node_def variable_node_def Let_def)

lemma batch_prefix_cursor:
  assumes "k \<le> length nodes"
    and "for_each (eval_node A nodes dataset rng (Some p) indices row r) [0..<k]
           (m :: 'a list list, 0, lg)
         = Inr (m', idx', lg')"
  shows "idx' = slot_of nodes k"
proof -
  let ?I = "\<lambda>j (s :: 'a list list \<times> nat \<times> access list). fst (snd s) = slot_of nodes j"
  have "?I k (m', idx', lg')"
  proof (rule for_each_invariant[where I = ?I, OF assms(2)])
    show "?I 0 (m, 0, lg)" by (simp add: slot_of_0)
  next
    fix i and s s' :: "'a list list \<times> nat \<times> access list"
    assume i: "i < k" and inv: "?I i s"
      and step: "eval_node A nodes dataset rng (Some p) indices row r i s = Inr s'"
    obtain m1 idx1 lg1 where s: "s = (m1, idx1, lg1)" by (cases s)
    obtain m2 idx2 lg2 where s': "s' = (m2, idx2, lg2)" by (cases s')
    from i assms(1) have il: "i < length nodes" by simp
    from inv have idx1: "idx1 = slot_of nodes i" by (simp add: s)
    from eval_node_reads[OF il idx1 step[unfolded s s']] show "?I (Suc i) s'"
      by (simp add: s')
  qed
  then show ?thesis by simp
qed

section \<open>The claims\<close>

text \<open>
  C1 (finiteness). The claim: for every well-formed tree, dataset and range, every entry
  of the vector that \<open>Evaluate\<close> returns is finite, since after the batched pass the
  entries that are not finite are replaced by \<open>(min + max) / 2\<close> of the finite ones and
  the finite ones are clamped. The code does not keep it where \<open>min + max\<close> overflows:
  for the tree \<open>Add(x, x)\<close> over the two rows \<open>x = 1.5 * 2^1022\<close> and \<open>x = 2^1023\<close> (all
  finite, all representable) the batched pass gives \<open>1.5 * 2^1023\<close> and an infinity, the
  only finite value is both minimum and maximum, their sum overflows, the midpoint is
  infinite, and the infinite entry is replaced by itself. The theorem evaluates
  \<open>Evaluate\<close> at this input.
\<close>

theorem Evaluate_midpoint_overflow:
  "Evaluate Scalar_arith [var_leaf 0 (Fin 1), var_leaf 0 (Fin 1), op_node Add 2 2]
     (table [[Fin (3 * 2 ^ 1021), Fin (2 ^ 1023)]]) (rows 0 2) None junk
   = Inr ([Fin (3 * 2 ^ 1022), PInf], [ColumnRead 0 0 0 2, ColumnRead 1 0 0 2])"
  by (simp add: run_defs)

text \<open>
  C2 (iteration cap), as amended. For every call of \<open>Optimize\<close> on a tree with at
  least one coefficient and with \<open>0 < iterations \<le> 2^31\<close>, the solver is called once, with
  the iteration cap \<open>iterations - 1\<close>. The claim's \<open>max(0, iterations - 1)\<close> is not what
  the code computes: the subtraction is unsigned and nothing clamps it.
\<close>

theorem Optimize_iteration_cap:
  assumes "GetCoefficients tree \<noteq> []" and "0 < n" and "n \<le> 2 ^ 31"
  shows "configured_caps
           (snd (snd (Optimize solver autodiff tree dataset targetValues rng n
                        writeCoefficients report)))
         = [uint n - 1]"
  using assms(1) cap_word[OF assms(2,3)]
  by (simp add: Optimize_def Let_def split: prod.splits)

text \<open>The theorem at \<open>iterations = 50\<close>, the default.\<close>

theorem Optimize_iteration_cap_witness:
  "configured_caps
     (snd (snd (Optimize (stub_solver (Fin 7)) True [const_leaf (Fin 1)] (table [[Fin 1]])
                  [Fin 1] (rows 0 1) 50 True False)))
   = [49]"
  using Optimize_iteration_cap[of "[const_leaf (Fin 1)]" 50 "stub_solver (Fin 7)" True
          "table [[Fin 1]]" "[Fin 1]" "rows 0 1" True False]
  by (simp add: GetCoefficients_def IsConstant_def const_leaf_def)

text \<open>
  With \<open>iterations = 0\<close> the subtraction wraps to \<open>2^64 - 1\<close>, whose low 32 bits read as a
  signed number are \<open>-1\<close>: the configured cap is \<open>-1\<close>, not \<open>0\<close>.
\<close>

theorem Optimize_iteration_cap_zero:
  "configured_caps
     (snd (snd (Optimize (stub_solver (Fin 7)) True [const_leaf (Fin 1)] (table [[Fin 1]])
                  [Fin 1] (rows 0 1) 0 True False)))
   = [- 1]"
  by (simp add: Optimize_def Let_def GetCoefficients_def IsConstant_def const_leaf_def
        stub_solver_def cap_zero)

text \<open>
  C3 (range of the \<open>1 - R\<^sup>2\<close> fitness). The claim: the evaluator returns \<open>1 - r\<^sup>2\<close> with
  \<open>r\<^sup>2\<close> clamped to \<open>[0, 1]\<close>, so the fitness lies in \<open>[0, 1]\<close>. The code calls
  \<^verbatim>\<open>std::clamp\<close> and drops its result, so \<open>r\<^sup>2\<close> is used as the metric returned it.
  The theorem evaluates the final statements of the evaluator at \<open>r\<^sup>2 = 1 + 2^-52\<close>, the
  double next above \<open>1\<close>: the fitness is \<open>-(2^-52)\<close>, below \<open>0\<close>, where the claim has \<open>0\<close>.
\<close>

theorem RSquared_fitness_below_zero:
  "RSquared_fitness (Fin (1 + 1 / 2 ^ 52)) = Fin (- (1 / 2 ^ 52))"
  by (simp add: RSquared_fitness_def Scalar_arith_def UpperBound_def LowerBound_def sub_d_def
        overflow_def DBL_MAX_def Let_def)

text \<open>
  C4 (operands of \<open>Sub\<close>). In postfix order the tree \<open>Sub(Variable(x, 1), Variable(y, 1))\<close>
  is the sequence \<open>y, x, Sub\<close>: the first operand stands directly before the operator. On
  a dataset with \<open>x = [5, 5, 5]\<close> (hash and column 0) and \<open>y = [1, 2, 3]\<close> (hash and
  column 1), over the three rows, \<open>Evaluate\<close> returns exactly \<open>[4, 3, 2]\<close>. In general a
  \<open>Sub\<close> node at index \<open>i\<close> whose operands are inside the sequence puts into column \<open>i\<close>
  the column at \<open>i - 1\<close> minus the column at \<open>i - 1 - Length(i - 1) - 1\<close>, row by row.
\<close>

theorem Sub_operands:
  "Evaluate Scalar_arith [var_leaf 1 (Fin 1), var_leaf 0 (Fin 1), op_node Sub 2 2]
     (table [[Fin 5, Fin 5, Fin 5], [Fin 1, Fin 2, Fin 3]]) (rows 0 3) None junk
   = Inr ([Fin 4, Fin 3, Fin 2], [ColumnRead 0 1 0 3, ColumnRead 1 0 0 3]) \<and>
   (Type (nodes ! i) = Sub \<and> 0 < i \<and> Length (nodes ! (i - 1)) + 2 \<le> i \<longrightarrow>
    eval_node A nodes dataset rng parameters indices row r i (m, idx, lg) =
      Inr (m[i := map2 (minus_T A) (m ! (i - 1)) (m ! (i - 1 - Length (nodes ! (i - 1)) - 1))],
           idx, lg))"
proof
  show "Evaluate Scalar_arith [var_leaf 1 (Fin 1), var_leaf 0 (Fin 1), op_node Sub 2 2]
     (table [[Fin 5, Fin 5, Fin 5], [Fin 1, Fin 2, Fin 3]]) (rows 0 3) None junk
   = Inr ([Fin 4, Fin 3, Fin 2], [ColumnRead 0 1 0 3, ColumnRead 1 0 0 3])"
    by (simp add: run_defs)
next
  show "Type (nodes ! i) = Sub \<and> 0 < i \<and> Length (nodes ! (i - 1)) + 2 \<le> i \<longrightarrow>
    eval_node A nodes dataset rng parameters indices row r i (m, idx, lg) =
      Inr (m[i := map2 (minus_T A) (m ! (i - 1)) (m ! (i - 1 - Length (nodes ! (i - 1)) - 1))],
           idx, lg)"
    using eval_node_Sub by blast
qed

text \<open>The general part at the \<open>Sub\<close> node of the example, on columns of three rows.\<close>

theorem Sub_operands_witness:
  "Type ([var_leaf 1 (Fin 1), var_leaf 0 (Fin 1), op_node Sub 2 2] ! 2) = Sub \<and>
   eval_node Scalar_arith [var_leaf 1 (Fin 1), var_leaf 0 (Fin 1), op_node Sub 2 2]
     (table [[Fin 5, Fin 5, Fin 5], [Fin 1, Fin 2, Fin 3]]) (rows 0 3) None [1, 0, 0] 0 3 2
     ([[Fin 1, Fin 2, Fin 3], [Fin 5, Fin 5, Fin 5], [NaN, NaN, NaN]], 0, [])
   = Inr ([[Fin 1, Fin 2, Fin 3], [Fin 5, Fin 5, Fin 5], [Fin 4, Fin 3, Fin 2]], 0, [])"
proof -
  let ?t = "[var_leaf 1 (Fin 1), var_leaf 0 (Fin 1), op_node Sub 2 2]"
  have h: "Type (?t ! 2) = Sub \<and> (0::nat) < 2 \<and> Length (?t ! (2 - 1)) + 2 \<le> 2"
    by (simp add: op_node_def var_leaf_def)
  from Sub_operands[of fresh ?t 2 Scalar_arith "table [[Fin 5, Fin 5, Fin 5], [Fin 1, Fin 2, Fin 3]]"
      "rows 0 3" None "[1, 0, 0]" 0 3
      "[[Fin 1, Fin 2, Fin 3], [Fin 5, Fin 5, Fin 5], [NaN, NaN, NaN]]" 0 "[]"] h
  show ?thesis
    by (simp add: op_node_def var_leaf_def Scalar_arith_def sub_d_def overflow_def DBL_MAX_def)
qed

text \<open>
  C5 (parameter equivalence). Evaluating a tree with no parameters (\<^verbatim>\<open>nullptr\<close>) and
  evaluating it with the coefficient vector that \<open>GetCoefficients\<close> extracts from it (one
  scalar per \<open>Constant\<close> node and one per \<open>Variable\<close> node's weight, in node order,
  converted to the scalar type of the evaluation) give the same result: the same vector,
  or the same failure. This holds for every scalar type and its operations, every tree,
  dataset and range, and whatever the two scratch matrices hold when they are allocated.
\<close>

theorem Evaluate_parameter_equivalence:
  "map_sum id fst (Evaluate A nodes dataset rng None junk) =
   map_sum id fst
     (Evaluate A nodes dataset rng (Some (map (cast A) (GetCoefficients nodes))) junk')"
  unfolding Evaluate_def by (rule Evaluate_span_parameters)

text \<open>
  C6 (frame of \<open>Optimize\<close>). Whatever the solver does, the tree that \<open>Optimize\<close> leaves
  has the nodes of the tree it was given, in the same order and with the same type,
  arity, length, depth and hash; a node that is neither a \<open>Constant\<close> nor a \<open>Variable\<close>
  is unchanged altogether; and when \<open>writeCoefficients\<close> is false the whole tree is
  unchanged.
\<close>

theorem Optimize_frame:
  assumes "Optimize solver autodiff tree dataset targetValues rng n writeCoefficients
             report = (tree', summary, events)"
  shows "map shape tree' = map shape tree \<and>
         (\<forall>i<length tree. \<not> IsConstant (tree ! i) \<and> \<not> IsVariable (tree ! i) \<longrightarrow>
            tree' ! i = tree ! i) \<and>
         (\<not> writeCoefficients \<longrightarrow> tree' = tree)"
  using assms
  by (auto simp: Optimize_def Let_def SetCoefficients_shape SetCoefficients_other
        split: if_splits prod.splits)

text \<open>
  The theorem on a tree \<open>Mul(Variable, Constant)\<close> with a solver that leaves \<open>7\<close> in every
  slot: with write-back the two leaves change their values only, without it nothing
  changes.
\<close>

theorem Optimize_frame_witness:
  "map shape [const_leaf (Fin 7), var_leaf 0 (Fin 7), op_node Mul 2 2] =
     map shape [const_leaf (Fin 1), var_leaf 0 (Fin 1), op_node Mul 2 2] \<and>
   [const_leaf (Fin 7), var_leaf 0 (Fin 7), op_node Mul 2 2] ! 2 =
     [const_leaf (Fin 1), var_leaf 0 (Fin 1), op_node Mul 2 2] ! 2 \<and>
   fst (Optimize (stub_solver (Fin 7)) True [const_leaf (Fin 1), var_leaf 0 (Fin 1), op_node Mul 2 2]
          (table [[Fin 1]]) [Fin 1] (rows 0 1) 50 False False)
     = [const_leaf (Fin 1), var_leaf 0 (Fin 1), op_node Mul 2 2]"
proof -
  let ?t = "[const_leaf (Fin 1), var_leaf 0 (Fin 1), op_node Mul 2 2]"
  let ?t' = "[const_leaf (Fin 7), var_leaf 0 (Fin 7), op_node Mul 2 2]"
  have run: "Optimize (stub_solver (Fin 7)) True ?t (table [[Fin 1]]) [Fin 1] (rows 0 1) 50 True False
      = (?t', 1,
         [CostFunctionCreated
            \<lparr>cost_autodiff = True, cost_tree = ?t, cost_dataset = table [[Fin 1]],
             cost_target = [Fin 1], cost_range = rows 0 1, parameter_block_size = 2,
             num_residuals = 1\<rparr>,
          SolveCalled
            \<lparr>max_num_iterations = 49, linear_solver_type = DENSE_QR,
             minimizer_progress_to_stdout = False, num_threads = 1\<rparr>])"
    by (simp add: Optimize_def Let_def GetCoefficients_def IsConstant_def IsVariable_def
          const_leaf_def var_leaf_def op_node_def stub_solver_def rows_def upt_0_2)
  obtain t2 s2 e2 where keep:
    "Optimize (stub_solver (Fin 7)) True ?t (table [[Fin 1]]) [Fin 1] (rows 0 1) 50 False False
      = (t2, s2, e2)"
    by (metis prod.collapse)
  have ns: "\<not> IsConstant (?t ! 2) \<and> \<not> IsVariable (?t ! 2)"
    by (simp add: IsConstant_def IsVariable_def op_node_def)
  from Optimize_frame[OF run] ns have a: "map shape ?t' = map shape ?t" and b: "?t' ! 2 = ?t ! 2"
    by simp_all
  from Optimize_frame[OF keep] have "t2 = ?t" by simp
  with keep a b show ?thesis by simp
qed

text \<open>
  C7 (no coefficients). If the coefficient vector extracted from the tree is empty,
  \<open>Optimize\<close> returns the default summary at once: no cost function is constructed, the
  solver is not called (there is no event), and the tree is unchanged.
\<close>

theorem Optimize_no_coefficients:
  assumes "GetCoefficients tree = []"
  shows "Optimize solver autodiff tree dataset targetValues rng n writeCoefficients report
         = (tree, default_summary solver, [])"
  using assms by (simp add: Optimize_def)

text \<open>The theorem on the tree with no node.\<close>

theorem Optimize_no_coefficients_witness:
  "Optimize (stub_solver (Fin 7)) True [] (table [[Fin 1]]) [Fin 1] (rows 0 1) 50 True False
   = ([], 0, [])"
  using Optimize_no_coefficients[of "[]" "stub_solver (Fin 7)" True "table [[Fin 1]]" "[Fin 1]"
          "rows 0 1" 50 True False]
  by (simp add: GetCoefficients_def stub_solver_def)

text \<open>
  C8 (fitness anomalies). Whenever an evaluator gets as far as its metric and the metric's
  value is not finite, the normalized-mean-squared-error evaluator returns
  \<^verbatim>\<open>Numeric::Max\<close> and the \<open>R\<^sup>2\<close> evaluator treats \<open>r\<^sup>2\<close> as \<open>0\<close> and returns the worst
  fitness \<open>1\<close>.
\<close>

theorem fitness_anomalies:
  assumes "predict solver ev problem genotype junk = Inr (estimated, target, ev1, genotype1)"
  shows "(\<not> isfinite (NMSE estimated target) \<longrightarrow>
            NormalizedMeanSquaredErrorEvaluator solver NMSE ev problem genotype junk
            = Inr (Max_T Scalar_arith, ev1, genotype1)) \<and>
         (\<not> isfinite (RSquared estimated target) \<longrightarrow>
            RSquaredEvaluator solver RSquared ev problem genotype junk
            = Inr (Fin 1, ev1, genotype1))"
  using assms
  by (simp add: NormalizedMeanSquaredErrorEvaluator_def RSquaredEvaluator_def
        NormalizedMeanSquaredError_fitness_def RSquared_fitness_def Scalar_arith_def
        UpperBound_def LowerBound_def sub_d_def overflow_def DBL_MAX_def Let_def)

text \<open>
  The theorem on the tree \<open>x\<close> over two rows, without optimization, for a metric
  whose value is \<open>0 / 0\<close>.
\<close>

theorem fitness_anomalies_witness:
  "predict (stub_solver (Fin 7)) \<lparr>fitnessEvaluations = 0, localEvaluations = 0, iterations = 0\<rparr>
     \<lparr>GetDataset = table [[Fin 1, Fin 2]], TrainingRange = rows 0 2, TargetValues = [Fin 1, Fin 2]\<rparr>
     [var_leaf 0 (Fin 1)] fresh
   = Inr ([Fin 1, Fin 2], [Fin 1, Fin 2],
          \<lparr>fitnessEvaluations = 1, localEvaluations = 0, iterations = 0\<rparr>, [var_leaf 0 (Fin 1)]) \<and>
   \<not> isfinite (zero_ratio [Fin 1, Fin 2] [Fin 1, Fin 2]) \<and>
   NormalizedMeanSquaredErrorEvaluator (stub_solver (Fin 7)) zero_ratio
     \<lparr>fitnessEvaluations = 0, localEvaluations = 0, iterations = 0\<rparr>
     \<lparr>GetDataset = table [[Fin 1, Fin 2]], TrainingRange = rows 0 2, TargetValues = [Fin 1, Fin 2]\<rparr>
     [var_leaf 0 (Fin 1)] fresh
   = Inr (Fin DBL_MAX, \<lparr>fitnessEvaluations = 1, localEvaluations = 0, iterations = 0\<rparr>,
          [var_leaf 0 (Fin 1)]) \<and>
   RSquaredEvaluator (stub_solver (Fin 7)) zero_ratio
     \<lparr>fitnessEvaluations = 0, localEvaluations = 0, iterations = 0\<rparr>
     \<lparr>GetDataset = table [[Fin 1, Fin 2]], TrainingRange = rows 0 2, TargetValues = [Fin 1, Fin 2]\<rparr>
     [var_leaf 0 (Fin 1)] fresh
   = Inr (Fin 1, \<lparr>fitnessEvaluations = 1, localEvaluations = 0, iterations = 0\<rparr>,
          [var_leaf 0 (Fin 1)])"
proof -
  have run: "Evaluate Scalar_arith [var_leaf 0 (Fin 1)] (table [[Fin 1, Fin 2]]) (rows 0 2) None fresh
      = Inr ([Fin 1, Fin 2], [ColumnRead 0 0 0 2])"
    by (simp add: run_defs)
  have p: "predict (stub_solver (Fin 7)) \<lparr>fitnessEvaluations = 0, localEvaluations = 0, iterations = 0\<rparr>
     \<lparr>GetDataset = table [[Fin 1, Fin 2]], TrainingRange = rows 0 2, TargetValues = [Fin 1, Fin 2]\<rparr>
     [var_leaf 0 (Fin 1)] fresh
   = Inr ([Fin 1, Fin 2], [Fin 1, Fin 2],
          \<lparr>fitnessEvaluations = 1, localEvaluations = 0, iterations = 0\<rparr>, [var_leaf 0 (Fin 1)])"
    by (simp add: predict_def Let_def subspan_def run) (simp add: rows_def)
  have nf: "\<not> isfinite (zero_ratio [Fin 1, Fin 2] [Fin 1, Fin 2])"
    by (simp add: zero_ratio_def)
  from fitness_anomalies[OF p, of zero_ratio zero_ratio] nf p show ?thesis
    by (simp add: Scalar_arith_def)
qed

text \<open>
  C9 (empty range), as amended. For every tree with at least one node, every dataset and
  every parameter pointer that is null or points to at least as many slots as the tree
  has coefficients, \<open>Evaluate\<close> over a range of size \<open>0\<close> returns the empty vector: the
  batched loop runs no iteration (it returns the state it is given), no dataset column is
  read, and the pass that replaces non-finite values leaves the empty output empty. The
  parameters are read all the same: the setup pass reads one slot per \<open>Constant\<close> node
  when the pointer is not null, and nothing otherwise.
\<close>

theorem Evaluate_empty_range:
  assumes "Size rng = 0" and "nodes \<noteq> []"
    and "parameters = None \<or>
         (\<exists>p. parameters = Some p \<and> length (GetCoefficients nodes) \<le> length p)"
  shows "Evaluate A nodes dataset rng parameters junk = Inr ([], setup_reads nodes parameters) \<and>
         batches A nodes dataset rng parameters indices row st = Inr st \<and>
         LimitToRange A [] mn mx = []"
proof (intro conjI)
  show "batches A nodes dataset rng parameters indices row st = Inr st"
    using assms(1) by (simp add: batches.simps)
  show "LimitToRange A [] mn mx = []"
    by (rule LimitToRange_Nil)
  show "Evaluate A nodes dataset rng parameters junk = Inr ([], setup_reads nodes parameters)"
  proof (cases parameters)
    case None
    obtain m ind idx where
      "for_each (setup_node A nodes dataset None) [0..<length nodes]
         (map (\<lambda>j. map (junk j) [0..<BATCHSIZE]) [0..<length nodes],
          replicate (length nodes) 0, 0, [])
       = Inr (m, ind, idx, [])"
      using setup_pass_None by blast
    then show ?thesis using assms(1,2) None
      by (simp add: Evaluate_def Evaluate_span_def batches.simps MinMax_Nil LimitToRange_Nil
            setup_reads_def)
  next
    case (Some p)
    with assms(3) have "length (GetCoefficients nodes) \<le> length p" by simp
    from setup_pass_Some[OF this] obtain m ind idx where
      "for_each (setup_node A nodes dataset (Some p)) [0..<length nodes]
         (map (\<lambda>j. map (junk j) [0..<BATCHSIZE]) [0..<length nodes],
          replicate (length nodes) 0, 0, [])
       = Inr (m, ind, idx,
              map (\<lambda>(i, k). ParamRead i k) (slots_of IsConstant nodes (length nodes)))"
      by blast
    then show ?thesis using assms(1,2) Some
      by (simp add: Evaluate_def Evaluate_span_def batches.simps MinMax_Nil LimitToRange_Nil
            setup_reads_def)
  qed
qed

text \<open>The theorem on \<open>Mul(Variable, Constant)\<close> with a buffer of two parameters.\<close>

theorem Evaluate_empty_range_witness:
  "Evaluate Scalar_arith [const_leaf (Fin 1), var_leaf 0 (Fin 1), op_node Mul 2 2]
     (table [[Fin 1, Fin 2]]) (rows 0 0) (Some [Fin 3, Fin 2]) fresh
   = Inr ([], [ParamRead 0 0])"
proof -
  have "Size (rows 0 0) = 0" by (simp add: rows_def)
  moreover have "[const_leaf (Fin 1), var_leaf 0 (Fin 1), op_node Mul 2 2] \<noteq> []" by simp
  moreover have
    "length (GetCoefficients [const_leaf (Fin 1), var_leaf 0 (Fin 1), op_node Mul 2 2])
      \<le> length [Fin 3, Fin 2 :: scalar]"
    by (simp add: GetCoefficients_def IsConstant_def IsVariable_def const_leaf_def var_leaf_def
          op_node_def)
  ultimately have
    "Evaluate Scalar_arith [const_leaf (Fin 1), var_leaf 0 (Fin 1), op_node Mul 2 2]
       (table [[Fin 1, Fin 2]]) (rows 0 0) (Some [Fin 3, Fin 2]) fresh
     = Inr ([], setup_reads [const_leaf (Fin 1), var_leaf 0 (Fin 1), op_node Mul 2 2]
                  (Some [Fin 3, Fin 2 :: scalar]))"
    by (intro Evaluate_empty_range[THEN conjunct1]) auto
  then show ?thesis
    by (simp add: setup_reads_def slots_of_def slot_of_def GetCoefficients_def IsConstant_def
          IsVariable_def const_leaf_def var_leaf_def op_node_def upt_0_3)
qed

text \<open>
  The claim as stated has no parameter slot read over an empty range. For the tree of one
  \<open>Constant\<close> node and a buffer of one parameter, slot \<open>0\<close> is read.
\<close>

theorem Evaluate_empty_range_reads_parameter:
  "Evaluate Scalar_arith [const_leaf (Fin 1)] (table []) (rows 0 0) (Some [Fin 2]) fresh
   = Inr ([], [ParamRead 0 0])"
  by (simp add: run_defs)

text \<open>
  C10 (parameter cursor). In the batched pass a \<open>Constant\<close> node moves the cursor by one
  and leaves the scratch matrix as it is. With parameters that are not null, a \<open>Variable\<close>
  node reads \<open>parameters[cursor]\<close>, writes that weight times the rows of its dataset
  column into the first \<open>remainingRows\<close> rows of its own column, and moves the cursor by
  one. Every batch starts with the cursor at \<open>0\<close>, so before node \<open>k\<close> the cursor is the
  number of \<open>Constant\<close> and \<open>Variable\<close> nodes at the positions before \<open>k\<close>. Hence the
  parameter reads of one batch, whatever the batch and the state it starts from, are
  exactly one per \<open>Variable\<close> node, in node order, at that slot; and the parameter reads
  of a whole evaluation are those of the setup pass (one per \<open>Constant\<close> node, at its
  slot) followed by the same reads of the \<open>Variable\<close> nodes once per batch.
\<close>

theorem parameter_cursor:
  "(Type (nodes ! i) = Constant \<longrightarrow>
      eval_node A nodes dataset rng parameters indices row r i (m, idx, lg)
      = Inr (m, idx + 1, lg)) \<and>
   (Type (nodes ! k) = Variable \<and> idxv < length p \<and> indices ! k < length (Values dataset) \<and>
    Start rng + row + r \<le> length (Values dataset ! (indices ! k)) \<longrightarrow>
      eval_node A nodes dataset rng (Some p) indices row r k (mv, idxv, lgv)
      = Inr (mv[k := map (\<lambda>x. times_T A (p ! idxv) (cast A x))
                       (take r (drop (Start rng + row) (Values dataset ! (indices ! k))))
                     @ drop r (mv ! k)],
             idxv + 1,
             lgv @ [ParamRead k idxv, ColumnRead k (indices ! k) (Start rng + row) r])) \<and>
   (k \<le> length nodes \<and>
    for_each (eval_node A nodes dataset rng (Some p) indices row r) [0..<k] (m, 0, lg)
      = Inr (mv, idxv, lgv) \<longrightarrow>
      idxv = slot_of nodes k) \<and>
   (batch A nodes dataset rng (Some p) indices row (m, res, lg) = Inr (m', res', lg') \<longrightarrow>
      take (length lg) lg' = lg \<and>
      param_reads (drop (length lg) lg') = slots_of IsVariable nodes (length nodes)) \<and>
   (Evaluate A nodes dataset rng (Some p) junk = Inr (out, reads) \<longrightarrow>
      param_reads reads =
        slots_of IsConstant nodes (length nodes) @
        concat (replicate ((Size rng + (BATCHSIZE - 1)) div BATCHSIZE)
                  (slots_of IsVariable nodes (length nodes))))"
proof (intro conjI impI)
  assume "Type (nodes ! i) = Constant"
  then show "eval_node A nodes dataset rng parameters indices row r i (m, idx, lg)
      = Inr (m, idx + 1, lg)"
    by (rule eval_node_Constant)
next
  assume "Type (nodes ! k) = Variable \<and> idxv < length p \<and>
    indices ! k < length (Values dataset) \<and>
    Start rng + row + r \<le> length (Values dataset ! (indices ! k))"
  then show "eval_node A nodes dataset rng (Some p) indices row r k (mv, idxv, lgv)
      = Inr (mv[k := map (\<lambda>x. times_T A (p ! idxv) (cast A x))
                       (take r (drop (Start rng + row) (Values dataset ! (indices ! k))))
                     @ drop r (mv ! k)],
             idxv + 1,
             lgv @ [ParamRead k idxv, ColumnRead k (indices ! k) (Start rng + row) r])"
    by (intro eval_node_Variable) simp_all
next
  assume "k \<le> length nodes \<and>
    for_each (eval_node A nodes dataset rng (Some p) indices row r) [0..<k] (m, 0, lg)
      = Inr (mv, idxv, lgv)"
  then show "idxv = slot_of nodes k"
    using batch_prefix_cursor by blast
next
  assume b: "batch A nodes dataset rng (Some p) indices row (m, res, lg) = Inr (m', res', lg')"
  from batch_reads[OF b] show "take (length lg) lg' = lg" by simp
  from batch_reads[OF b]
  show "param_reads (drop (length lg) lg') = slots_of IsVariable nodes (length nodes)" by simp
next
  assume "Evaluate A nodes dataset rng (Some p) junk = Inr (out, reads)"
  then show "param_reads reads =
        slots_of IsConstant nodes (length nodes) @
        concat (replicate ((Size rng + (BATCHSIZE - 1)) div BATCHSIZE)
                  (slots_of IsVariable nodes (length nodes)))"
    by (rule Evaluate_reads)
qed

text \<open>
  The theorem on \<open>Mul(Variable, Constant)\<close> over two rows, with the parameters \<open>[3, 2]\<close>:
  the \<open>Variable\<close> node is reached with the cursor at \<open>1\<close> and writes \<open>2 * [1, 2]\<close>.
\<close>

theorem parameter_cursor_witness:
  "eval_node Scalar_arith [const_leaf (Fin 1), var_leaf 0 (Fin 1), op_node Mul 2 2]
     (table [[Fin 1, Fin 2]]) (rows 0 2) (Some [Fin 3, Fin 2]) [0, 0, 0] 0 2 0
     ([[Fin 3, Fin 3], [NaN, NaN], [NaN, NaN]], 0, [ParamRead 0 0])
   = Inr ([[Fin 3, Fin 3], [NaN, NaN], [NaN, NaN]], 1, [ParamRead 0 0]) \<and>
   slot_of [const_leaf (Fin 1), var_leaf 0 (Fin 1), op_node Mul 2 2] 1 = 1 \<and>
   eval_node Scalar_arith [const_leaf (Fin 1), var_leaf 0 (Fin 1), op_node Mul 2 2]
     (table [[Fin 1, Fin 2]]) (rows 0 2) (Some [Fin 3, Fin 2]) [0, 0, 0] 0 2 1
     ([[Fin 3, Fin 3], [NaN, NaN], [NaN, NaN]], 1, [ParamRead 0 0])
   = Inr ([[Fin 3, Fin 3], [Fin 2, Fin 4], [NaN, NaN]], 2,
          [ParamRead 0 0, ParamRead 1 1, ColumnRead 1 0 0 2]) \<and>
   batch Scalar_arith [const_leaf (Fin 1), var_leaf 0 (Fin 1), op_node Mul 2 2]
     (table [[Fin 1, Fin 2]]) (rows 0 2) (Some [Fin 3, Fin 2]) [0, 0, 0] 0
     ([[Fin 3, Fin 3], [NaN, NaN], [NaN, NaN]], [Fin 0, Fin 0], [ParamRead 0 0])
   = Inr ([[Fin 3, Fin 3], [Fin 2, Fin 4], [Fin 6, Fin 12]], [Fin 6, Fin 12],
          [ParamRead 0 0, ParamRead 1 1, ColumnRead 1 0 0 2]) \<and>
   param_reads (drop (length [ParamRead 0 0]) [ParamRead 0 0, ParamRead 1 1, ColumnRead 1 0 0 2])
   = slots_of IsVariable [const_leaf (Fin 1), var_leaf 0 (Fin 1), op_node Mul 2 2]
       (length [const_leaf (Fin 1), var_leaf 0 (Fin 1), op_node Mul 2 2]) \<and>
   Evaluate Scalar_arith [const_leaf (Fin 1), var_leaf 0 (Fin 1), op_node Mul 2 2]
     (table [[Fin 1, Fin 2]]) (rows 0 2) (Some [Fin 3, Fin 2]) fresh
   = Inr ([Fin 6, Fin 12], [ParamRead 0 0, ParamRead 1 1, ColumnRead 1 0 0 2]) \<and>
   param_reads [ParamRead 0 0, ParamRead 1 1, ColumnRead 1 0 0 2]
   = slots_of IsConstant [const_leaf (Fin 1), var_leaf 0 (Fin 1), op_node Mul 2 2]
       (length [const_leaf (Fin 1), var_leaf 0 (Fin 1), op_node Mul 2 2]) @
     concat (replicate ((Size (rows 0 2) + (BATCHSIZE - 1)) div BATCHSIZE)
       (slots_of IsVariable [const_leaf (Fin 1), var_leaf 0 (Fin 1), op_node Mul 2 2]
          (length [const_leaf (Fin 1), var_leaf 0 (Fin 1), op_node Mul 2 2])))"
proof -
  let ?t = "[const_leaf (Fin 1), var_leaf 0 (Fin 1), op_node Mul 2 2]"
  let ?d = "table [[Fin 1, Fin 2]]"
  let ?m = "[[Fin 3, Fin 3], [NaN, NaN], [NaN, NaN]]"
  let ?lg' = "[ParamRead 0 0, ParamRead 1 1, ColumnRead 1 0 0 2]"
  have c: "Type (?t ! 0) = Constant" by (simp add: const_leaf_def)
  have v: "Type (?t ! 1) = Variable \<and> (1::nat) < length [Fin 3, Fin 2 :: scalar] \<and>
      [0, 0, 0::nat] ! 1 < length (Values ?d) \<and>
      Start (rows 0 2) + 0 + 2 \<le> length (Values ?d ! ([0, 0, 0::nat] ! 1))"
    by (simp add: var_leaf_def table_def rows_def)
  have f: "(1::nat) \<le> length ?t \<and>
      for_each (eval_node Scalar_arith ?t ?d (rows 0 2) (Some [Fin 3, Fin 2]) [0, 0, 0] 0 2)
        [0..<1] (?m, 0, [ParamRead 0 0]) = Inr (?m, 1, [ParamRead 0 0])"
    by (simp add: eval_node_def const_leaf_def upt_0_1)
  have b: "batch Scalar_arith ?t ?d (rows 0 2) (Some [Fin 3, Fin 2])
      [0, 0, 0] 0 (?m, [Fin 0, Fin 0], [ParamRead 0 0])
    = Inr ([[Fin 3, Fin 3], [Fin 2, Fin 4], [Fin 6, Fin 12]], [Fin 6, Fin 12], ?lg')"
    by (simp add: run_defs)
  have e: "Evaluate Scalar_arith ?t ?d (rows 0 2) (Some [Fin 3, Fin 2]) fresh
    = Inr ([Fin 6, Fin 12], ?lg')"
    by (simp add: run_defs)
  note inst = parameter_cursor[where nodes = ?t and i = 0 and k = 1 and A = Scalar_arith
      and dataset = ?d and rng = "rows 0 2" and parameters = "Some [Fin 3, Fin 2]"
      and indices = "[0, 0, 0]" and row = 0 and r = 2 and m = ?m and idx = 0
      and lg = "[ParamRead 0 0]" and p = "[Fin 3, Fin 2]" and mv = ?m and idxv = 1
      and lgv = "[ParamRead 0 0]" and res = "[Fin 0, Fin 0]"
      and m' = "[[Fin 3, Fin 3], [Fin 2, Fin 4], [Fin 6, Fin 12]]" and res' = "[Fin 6, Fin 12]"
      and lg' = ?lg' and junk = fresh and out = "[Fin 6, Fin 12]" and reads = ?lg']
  from inst c have p1: "eval_node Scalar_arith ?t ?d (rows 0 2) (Some [Fin 3, Fin 2]) [0, 0, 0]
      0 2 0 (?m, 0, [ParamRead 0 0]) = Inr (?m, 1, [ParamRead 0 0])"
    by simp
  from inst f have p2: "slot_of ?t 1 = 1" by simp
  from inst v have p3: "eval_node Scalar_arith ?t ?d (rows 0 2) (Some [Fin 3, Fin 2]) [0, 0, 0]
      0 2 1 (?m, 1, [ParamRead 0 0])
      = Inr ([[Fin 3, Fin 3], [Fin 2, Fin 4], [NaN, NaN]], 2, ?lg')"
    by (simp add: table_def rows_def Scalar_arith_def overflow_def DBL_MAX_def)
  from inst b have p4: "param_reads (drop (length [ParamRead 0 0]) ?lg')
      = slots_of IsVariable ?t (length ?t)"
    by blast
  from inst e have p5: "param_reads ?lg' = slots_of IsConstant ?t (length ?t) @
     concat (replicate ((Size (rows 0 2) + (BATCHSIZE - 1)) div BATCHSIZE)
       (slots_of IsVariable ?t (length ?t)))"
    by blast
  from p1 p2 p3 b p4 e p5 show ?thesis by blast
qed

end
